theory Spec2Isabelle
  imports Complex_Main
begin

section \<open>JavaScript values\<close>

text \<open>
  The relay of \<^verbatim>\<open>server.js\<close> handles values that come out of \<^verbatim>\<open>JSON.parse\<close> and
  out of the HTTP client. They are modelled as a datatype of JavaScript values.

  A number is \<open>NaN\<close>, one of the two infinities, or a finite double, held as the
  rational it denotes; the arithmetic of the code rounds its results to doubles with
  \<open>round64\<close> below. Negative zero is not told apart from zero. A string is the list of
  its code units, each below 256. An object is the association list of its own
  properties; a key is looked up at its first occurrence.
\<close>

datatype jsnum = NaN | PosInf | NegInf | Num rat

datatype jsval =
    JUndefined
  | JNull
  | JBool bool
  | JNumber jsnum
  | JString string
  | JArray "jsval list"
  | JObject "(string \<times> jsval) list"

text \<open>
  What the code can throw: a \<^verbatim>\<open>TypeError\<close> (a property read on \<^verbatim>\<open>null\<close> or
  \<^verbatim>\<open>undefined\<close>, a call of something that is not a function, an object that does not
  convert to a primitive), the \<^verbatim>\<open>SyntaxError\<close> of \<^verbatim>\<open>JSON.parse\<close>, and the rejection
  of an HTTP request, which carries the message of its cause.
\<close>

datatype error = TypeError | SyntaxError | RequestFailed string

definition bindE :: "error + 'a \<Rightarrow> ('a \<Rightarrow> error + 'b) \<Rightarrow> error + 'b" where
  "bindE m f = (case m of Inl e \<Rightarrow> Inl e | Inr x \<Rightarrow> f x)"

subsection \<open>Property access\<close>

text \<open>
  \<^verbatim>\<open>v.k\<close> for the property names the relay reads (\<^verbatim>\<open>type\<close>, \<^verbatim>\<open>subject\<close>,
  \<^verbatim>\<open>topic\<close>, \<^verbatim>\<open>data\<close>, \<^verbatim>\<open>candles\<close>, \<^verbatim>\<open>symbol\<close>, \<^verbatim>\<open>interval\<close>,
  \<^verbatim>\<open>instanceServers\<close>, \<^verbatim>\<open>endpoint\<close>, \<^verbatim>\<open>token\<close>): none of them is inherited from a
  prototype, so the read gives the own property of an object and \<^verbatim>\<open>undefined\<close> on
  every other value, and throws on \<^verbatim>\<open>null\<close> and \<^verbatim>\<open>undefined\<close>.
\<close>

fun get_prop :: "jsval \<Rightarrow> string \<Rightarrow> error + jsval" where
  "get_prop JUndefined k = Inl TypeError"
| "get_prop JNull k = Inl TypeError"
| "get_prop (JObject kvs) k = Inr (case map_of kvs k of None \<Rightarrow> JUndefined | Some v \<Rightarrow> v)"
| "get_prop v k = Inr JUndefined"

definition digit_char :: "nat \<Rightarrow> char" where
  "digit_char n = char_of (48 + n)"

function index_key :: "nat \<Rightarrow> string" where
  "index_key n = (if n < 10 then [digit_char n] else index_key (n div 10) @ [digit_char (n mod 10)])"
  by pat_completeness auto
termination
  by (relation "measure (\<lambda>n. n)") auto

declare index_key.simps [simp del]

text \<open>
  \<^verbatim>\<open>v[i]\<close> for a literal index \<open>i\<close>: an element of an array, a one-character string of
  a string, the property named by the decimal digits of \<open>i\<close> of an object,
  \<^verbatim>\<open>undefined\<close> when out of range or on a number or a boolean, a \<^verbatim>\<open>TypeError\<close> on
  \<^verbatim>\<open>null\<close> and \<^verbatim>\<open>undefined\<close>.
\<close>

fun index :: "jsval \<Rightarrow> nat \<Rightarrow> error + jsval" where
  "index JUndefined i = Inl TypeError"
| "index JNull i = Inl TypeError"
| "index (JArray xs) i = Inr (if i < length xs then xs ! i else JUndefined)"
| "index (JString s) i = Inr (if i < length s then JString [s ! i] else JUndefined)"
| "index (JObject kvs) i =
     Inr (case map_of kvs (index_key i) of None \<Rightarrow> JUndefined | Some v \<Rightarrow> v)"
| "index v i = Inr JUndefined"

subsection \<open>Truthiness, \<^verbatim>\<open>includes\<close>, \<^verbatim>\<open>Array.isArray\<close>\<close>

fun truthy :: "jsval \<Rightarrow> bool" where
  "truthy JUndefined = False"
| "truthy JNull = False"
| "truthy (JBool b) = b"
| "truthy (JNumber n) = (n \<noteq> NaN \<and> n \<noteq> Num 0)"
| "truthy (JString s) = (s \<noteq> [])"
| "truthy (JArray xs) = True"
| "truthy (JObject kvs) = True"

fun starts_with :: "string \<Rightarrow> string \<Rightarrow> bool" where
  "starts_with s [] = True"
| "starts_with [] (p # ps) = False"
| "starts_with (c # s) (p # ps) = (c = p \<and> starts_with s ps)"

fun str_includes :: "string \<Rightarrow> string \<Rightarrow> bool" where
  "str_includes [] needle = (needle = [])"
| "str_includes (c # s) needle = (starts_with (c # s) needle \<or> str_includes s needle)"

text \<open>
  \<^verbatim>\<open>v.includes(needle)\<close> with a string \<open>needle\<close>: the substring test of a string, the
  membership test of an array (an element is found when it is that very string), and
  a \<^verbatim>\<open>TypeError\<close> on every other value, which has no callable \<^verbatim>\<open>includes\<close>.
\<close>

fun js_includes :: "jsval \<Rightarrow> string \<Rightarrow> error + bool" where
  "js_includes (JString s) needle = Inr (str_includes s needle)"
| "js_includes (JArray xs) needle = Inr (JString needle \<in> set xs)"
| "js_includes v needle = Inl TypeError"

fun isArray :: "jsval \<Rightarrow> bool" where
  "isArray (JArray xs) = True"
| "isArray v = False"

text \<open>The elements of an array, for \<^verbatim>\<open>length\<close> and \<^verbatim>\<open>map\<close>, which the code calls on arrays only.\<close>

fun elements :: "jsval \<Rightarrow> jsval list" where
  "elements (JArray xs) = xs"
| "elements v = []"

section \<open>Doubles\<close>

text \<open>
  The rounding of a rational to the nearest double (IEEE 754 binary64, ties to the even
  mantissa). \<open>exponent a\<close> is the binade of a positive \<open>a\<close>, the \<open>e\<close> with
  \<open>2\<^sup>e \<le> a < 2\<^sup>e\<^sup>+\<^sup>1\<close>, found from the number of bits of the integer part of
  \<open>a\<close> or of \<open>1 / a\<close>. The doubles of that binade are the multiples of
  \<open>ulp a = 2\<^sup>e\<^sup>-\<^sup>5\<^sup>2\<close>; below the binade \<open>-1022\<close> (the subnormal range) the
  spacing stays \<open>2\<^sup>-\<^sup>1\<^sup>0\<^sup>7\<^sup>4\<close>. A magnitude that rounds to \<open>2\<^sup>1\<^sup>0\<^sup>2\<^sup>4\<close> or more
  overflows to an infinity.
\<close>

function bit_length :: "nat \<Rightarrow> nat" where
  "bit_length n = (if n = 0 then 0 else Suc (bit_length (n div 2)))"
  by pat_completeness auto
termination
  by (relation "measure (\<lambda>n. n)") auto

declare bit_length.simps [simp del]

definition exponent :: "rat \<Rightarrow> int" where
  "exponent a =
     (if 1 \<le> a then int (bit_length (nat \<lfloor>a\<rfloor>)) - 1
      else - int (bit_length (nat (\<lceil>1 / a\<rceil> - 1))))"

text \<open>Rounding to the nearest integer, a tie going to the even one.\<close>

definition rne :: "rat \<Rightarrow> int" where
  "rne x =
     (let f = \<lfloor>x\<rfloor>; r = x - of_int f
      in if r < 1 / 2 then f else if 1 / 2 < r then f + 1 else if even f then f else f + 1)"

definition ulp :: "rat \<Rightarrow> rat" where
  "ulp a = power_int 2 (max (exponent a) (- 1022) - 52)"

definition round_mag :: "rat \<Rightarrow> rat" where
  "round_mag a = of_int (rne (a / ulp a)) * ulp a"

definition round64 :: "rat \<Rightarrow> jsnum" where
  "round64 q =
     (if q = 0 then Num 0
      else if 2 ^ 1024 \<le> round_mag \<bar>q\<bar> then (if q < 0 then NegInf else PosInf)
      else Num (if q < 0 then - round_mag \<bar>q\<bar> else round_mag \<bar>q\<bar>))"

section \<open>The numeric builtins\<close>

subsection \<open>Reading digits\<close>

text \<open>
  White space, among the code units below 256: tab, line feed, vertical tab, form feed,
  carriage return, space and the no-break space.
\<close>

definition is_space :: "char \<Rightarrow> bool" where
  "is_space c \<longleftrightarrow> c = CHR '' '' \<or> c = CHR 0x09 \<or> c = CHR 0x0A \<or> c = CHR 0x0B
     \<or> c = CHR 0x0C \<or> c = CHR 0x0D \<or> c = CHR 0xA0"

text \<open>
  The value of a character as a digit, by its code: \<^verbatim>\<open>0\<close> to \<^verbatim>\<open>9\<close> are 48 to 57,
  \<^verbatim>\<open>A\<close> to \<^verbatim>\<open>F\<close> are 65 to 70 and \<^verbatim>\<open>a\<close> to \<^verbatim>\<open>f\<close> are 97 to 102.
\<close>

definition dec_digit :: "char \<Rightarrow> nat option" where
  "dec_digit c =
     (let k = (of_char c :: nat) in if 48 \<le> k \<and> k \<le> 57 then Some (k - 48) else None)"

definition hex_digit :: "char \<Rightarrow> nat option" where
  "hex_digit c =
     (let k = (of_char c :: nat) in
      if 48 \<le> k \<and> k \<le> 57 then Some (k - 48)
      else if 65 \<le> k \<and> k \<le> 70 then Some (k - 55)
      else if 97 \<le> k \<and> k \<le> 102 then Some (k - 87)
      else None)"

text \<open>
  The longest prefix of digits of a string, as the list of their values, and the
  number such a list denotes in a radix.
\<close>

fun digits_prefix :: "(char \<Rightarrow> nat option) \<Rightarrow> string \<Rightarrow> nat list" where
  "digits_prefix dig [] = []"
| "digits_prefix dig (c # s) =
     (case dig c of None \<Rightarrow> [] | Some d \<Rightarrow> d # digits_prefix dig s)"

definition digits_value :: "nat \<Rightarrow> nat list \<Rightarrow> nat" where
  "digits_value radix ds = foldl (\<lambda>acc d. acc * radix + d) 0 ds"

text \<open>An optional sign: whether it is a minus, and the rest of the string.\<close>

fun read_sign :: "string \<Rightarrow> bool \<times> string" where
  "read_sign [] = (False, [])"
| "read_sign (c # s) =
     (if c = CHR ''-'' then (True, s) else if c = CHR ''+'' then (False, s) else (False, c # s))"

subsection \<open>\<^verbatim>\<open>parseInt\<close> and \<^verbatim>\<open>parseFloat\<close> on a string\<close>

text \<open>
  \<^verbatim>\<open>parseInt(s)\<close> with no radix: leading white space is skipped, a sign is read, a
  prefix \<^verbatim>\<open>0x\<close> or \<^verbatim>\<open>0X\<close> selects radix 16, and the longest prefix of digits is
  read; the result is the double nearest to the integer they denote, and \<open>NaN\<close> when
  there is no digit.
\<close>

definition parseInt_string :: "string \<Rightarrow> jsnum" where
  "parseInt_string s =
     (let (neg, s1) = read_sign (dropWhile is_space s);
          hex = (starts_with s1 ''0x'' \<or> starts_with s1 ''0X'');
          ds = (if hex then digits_prefix hex_digit (drop 2 s1) else digits_prefix dec_digit s1);
          n = int (digits_value (if hex then 16 else 10) ds)
      in if ds = [] then NaN else round64 (of_int (if neg then - n else n)))"

text \<open>
  \<^verbatim>\<open>parseFloat(s)\<close>: leading white space is skipped and the longest prefix that is a
  decimal literal is the result: a sign, then \<^verbatim>\<open>Infinity\<close> or digits with an optional
  fraction and an optional exponent. An exponent counts only when it has a digit.
  The result is the double nearest to the decimal, and \<open>NaN\<close> when neither the
  integer part nor the fraction has a digit.
\<close>

definition read_exponent :: "string \<Rightarrow> int" where
  "read_exponent s =
     (case s of
        [] \<Rightarrow> 0
      | c # t \<Rightarrow>
          if c = CHR ''e'' \<or> c = CHR ''E'' then
            (let (neg, t1) = read_sign t;
                 ds = digits_prefix dec_digit t1;
                 n = int (digits_value 10 ds)
             in if neg then - n else n)
          else 0)"

definition scale10 :: "rat \<Rightarrow> int \<Rightarrow> rat" where
  "scale10 q e = (if 0 \<le> e then q * 10 ^ nat e else q / 10 ^ nat (- e))"

definition parseFloat_string :: "string \<Rightarrow> jsnum" where
  "parseFloat_string s =
     (let (neg, s1) = read_sign (dropWhile is_space s) in
      if starts_with s1 ''Infinity'' then (if neg then NegInf else PosInf)
      else
        (let ip = digits_prefix dec_digit s1;
             s2 = drop (length ip) s1;
             fp = (if starts_with s2 ''.'' then digits_prefix dec_digit (drop 1 s2) else []);
             s3 = (if starts_with s2 ''.'' then drop (Suc (length fp)) s2 else s2);
             m = of_nat (digits_value 10 ip) + of_nat (digits_value 10 fp) / 10 ^ length fp;
             q = scale10 m (read_exponent s3)
         in if ip = [] \<and> fp = [] then NaN else round64 (if neg then - q else q)))"

subsection \<open>\<^verbatim>\<open>parseInt\<close> and \<^verbatim>\<open>parseFloat\<close> on a number\<close>

text \<open>
  Both builtins convert their argument to a string first. A double prints as the
  shortest decimal that rounds to it. \<open>decade a\<close> is the \<open>K\<close> with
  \<open>10\<^sup>K \<le> a < 10\<^sup>K\<^sup>+\<^sup>1\<close>. The first digit printed is that of \<open>a\<close> itself, unless the
  next one-digit decimal above \<open>a\<close> already rounds to \<open>a\<close>: then that decimal is
  printed. \<open>decimal_point a\<close> is the number of digits the printed decimal has before its
  point (zero or negative for leading zeros after it).
\<close>

function num_digits :: "nat \<Rightarrow> nat" where
  "num_digits n = (if n < 10 then 1 else Suc (num_digits (n div 10)))"
  by pat_completeness auto
termination
  by (relation "measure (\<lambda>n. n)") auto

declare num_digits.simps [simp del]

definition decade :: "rat \<Rightarrow> int" where
  "decade a =
     (if 1 \<le> a then int (num_digits (nat \<lfloor>a\<rfloor>)) - 1
      else - int (num_digits (nat (\<lceil>1 / a\<rceil> - 1))))"

definition rounds_up :: "rat \<Rightarrow> bool" where
  "rounds_up a =
     (let p = power_int 10 (decade a) in round64 ((of_int \<lfloor>a / p\<rfloor> + 1) * p) = Num a)"

definition lead_digit :: "rat \<Rightarrow> int" where
  "lead_digit a =
     (let d = \<lfloor>a / power_int 10 (decade a)\<rfloor>
      in if rounds_up a then (if d = 9 then 1 else d + 1) else d)"

definition decimal_point :: "rat \<Rightarrow> int" where
  "decimal_point a =
     (if rounds_up a \<and> \<lfloor>a / power_int 10 (decade a)\<rfloor> = 9 then decade a + 2
      else decade a + 1)"

text \<open>
  A number prints in decimal notation when it is zero or \<open>decimal_point\<close> is between
  \<open>-5\<close> and \<open>21\<close>, so \<^verbatim>\<open>parseInt\<close> reads its integer part; otherwise it prints in
  exponent notation with one digit before the point, and \<^verbatim>\<open>parseInt\<close> reads that
  digit alone. \<^verbatim>\<open>parseFloat\<close> reads the printed number back.
\<close>

fun parseInt_number :: "jsnum \<Rightarrow> jsnum" where
  "parseInt_number (Num q) =
     (let a = \<bar>q\<bar>;
          d = (if q = 0 then 0
               else if 21 < decimal_point a \<or> decimal_point a \<le> - 6 then lead_digit a
               else \<lfloor>a\<rfloor>)
      in Num (of_int (if q < 0 then - d else d)))"
| "parseInt_number n = NaN"

declare parseInt_number.simps(1) [simp del]

definition parseFloat_number :: "jsnum \<Rightarrow> jsnum" where
  "parseFloat_number n = n"

subsection \<open>\<^verbatim>\<open>parseInt\<close> and \<^verbatim>\<open>parseFloat\<close> on any value\<close>

text \<open>
  The conversion to a string throws a \<^verbatim>\<open>TypeError\<close> on an object whose own property
  \<^verbatim>\<open>toString\<close> hides the inherited method (a parsed JSON value is never callable),
  and on an array with such an element, since an array prints all its elements,
  joined by commas. Every other value converts.
\<close>

fun stringifiable :: "jsval \<Rightarrow> bool" where
  "stringifiable (JObject kvs) = (map_of kvs ''toString'' = None)"
| "stringifiable (JArray xs) = (\<forall>x \<in> set xs. stringifiable x)"
| "stringifiable v = True"

text \<open>
  \<^verbatim>\<open>undefined\<close>, \<^verbatim>\<open>null\<close>, a boolean and an object print as text with no leading
  digit, hence \<open>NaN\<close>. An array prints its first element first, and the comma after it
  ends every numeric prefix, so the result is that of the first element (an empty
  array, and a first element \<^verbatim>\<open>null\<close> or \<^verbatim>\<open>undefined\<close>, print nothing there).
\<close>

fun parseInt :: "jsval \<Rightarrow> error + jsnum" where
  "parseInt (JString s) = Inr (parseInt_string s)"
| "parseInt (JNumber n) = Inr (parseInt_number n)"
| "parseInt (JArray []) = Inr NaN"
| "parseInt (JArray (x # xs)) =
     (if \<forall>y \<in> set (x # xs). stringifiable y then parseInt x else Inl TypeError)"
| "parseInt (JObject kvs) = (if stringifiable (JObject kvs) then Inr NaN else Inl TypeError)"
| "parseInt v = Inr NaN"

fun parseFloat :: "jsval \<Rightarrow> error + jsnum" where
  "parseFloat (JString s) = Inr (parseFloat_string s)"
| "parseFloat (JNumber n) = Inr (parseFloat_number n)"
| "parseFloat (JArray []) = Inr NaN"
| "parseFloat (JArray (x # xs)) =
     (if \<forall>y \<in> set (x # xs). stringifiable y then parseFloat x else Inl TypeError)"
| "parseFloat (JObject kvs) = (if stringifiable (JObject kvs) then Inr NaN else Inl TypeError)"
| "parseFloat v = Inr NaN"

text \<open>
  The division \<^verbatim>\<open>x / 1000\<close> of a number by the literal 1000: the double nearest to the
  quotient.
\<close>

fun div1000 :: "jsnum \<Rightarrow> jsnum" where
  "div1000 (Num q) = round64 (q / 1000)"
| "div1000 n = n"

section \<open>Candles\<close>

text \<open>
  The object literal both transformations build, with its properties in the order of
  the source.
\<close>

record candle =
  time :: jsnum
  "open" :: jsnum
  close :: jsnum
  high :: jsnum
  low :: jsnum

text \<open>
  The live transformation (\<^verbatim>\<open>realTimeCandle\<close> in the handler of upstream messages).
  \<^verbatim>\<open>kucoinCandle.candles[i]\<close> reads the property and then the index, and each may
  throw.
\<close>

definition candles_at :: "jsval \<Rightarrow> nat \<Rightarrow> error + jsval" where
  "candles_at kucoinCandle i = bindE (get_prop kucoinCandle ''candles'') (\<lambda>cs. index cs i)"

definition realTimeCandle :: "jsval \<Rightarrow> error + candle" where
  "realTimeCandle kucoinCandle =
     bindE (bindE (candles_at kucoinCandle 0) parseInt) (\<lambda>t.
     bindE (bindE (candles_at kucoinCandle 1) parseFloat) (\<lambda>op.
     bindE (bindE (candles_at kucoinCandle 2) parseFloat) (\<lambda>cl.
     bindE (bindE (candles_at kucoinCandle 3) parseFloat) (\<lambda>hi.
     bindE (bindE (candles_at kucoinCandle 4) parseFloat) (\<lambda>lo.
       Inr \<lparr>time = div1000 t, open = op, close = cl, high = hi, low = lo\<rparr>)))))"

text \<open>
  The historical transformation: the function mapped over \<^verbatim>\<open>kucoinData\<close>, and the
  map itself, which stops at the first record that throws.
\<close>

definition formattedCandle :: "jsval \<Rightarrow> error + candle" where
  "formattedCandle d =
     bindE (bindE (index d 0) parseInt) (\<lambda>t.
     bindE (bindE (index d 1) parseFloat) (\<lambda>op.
     bindE (bindE (index d 2) parseFloat) (\<lambda>cl.
     bindE (bindE (index d 3) parseFloat) (\<lambda>hi.
     bindE (bindE (index d 4) parseFloat) (\<lambda>lo.
       Inr \<lparr>time = div1000 t, open = op, close = cl, high = hi, low = lo\<rparr>)))))"

fun formattedCandles :: "jsval list \<Rightarrow> error + candle list" where
  "formattedCandles [] = Inr []"
| "formattedCandles (d # ds) =
     bindE (formattedCandle d) (\<lambda>c. bindE (formattedCandles ds) (\<lambda>cs. Inr (c # cs)))"

definition finalCandles :: "candle list \<Rightarrow> candle list" where
  "finalCandles cs = rev cs"

section \<open>The relay\<close>

subsection \<open>Connections, messages and effects\<close>

text \<open>
  A downstream connection is named by a number. Its \<^verbatim>\<open>readyState\<close> belongs to the
  socket, not to the relay, and is given to the model as a function.
\<close>

type_synonym conn = nat

datatype readyState = CONNECTING | OPEN | CLOSING | CLOSED

text \<open>
  The three objects the relay serialises and sends downstream:
  \<^verbatim>\<open>{topic: msg.topic, data: realTimeCandle}\<close>,
  \<^verbatim>\<open>{topic: 'history_data', data: finalCandles}\<close> and
  \<^verbatim>\<open>{topic: 'error', message: ...}\<close>.
\<close>

datatype out_msg =
    Push jsval candle
  | HistoryData "candle list"
  | ErrorMessage string

text \<open>
  What a handler does to the world, in the order it does it: a \<^verbatim>\<open>send\<close> on a
  downstream connection, the GET of the historical endpoint with its \<^verbatim>\<open>symbol\<close> and
  \<^verbatim>\<open>granularity\<close>, the POST of the bootstrap endpoint, a timer that calls
  \<^verbatim>\<open>connectToKuCoin\<close> after a delay in milliseconds, the opening of the upstream
  socket at an endpoint with a token, and its closing. Console output is left out;
  where printing a value into a message can throw, the handler below says so.
\<close>

datatype effect =
    ClientSend conn out_msg
  | HttpGet jsval jsval
  | HttpPost
  | SetTimeout nat
  | NewWebSocket jsval jsval
  | UpstreamClose

text \<open>The answer of an HTTP request: a rejection with its message, or a response body.\<close>

datatype http_result = Rejected string | Response jsval

text \<open>
  An incoming frame, given by what \<^verbatim>\<open>JSON.parse\<close> makes of it: a \<^verbatim>\<open>SyntaxError\<close>
  or a value.
\<close>

datatype frame = Unparsable | Parsed jsval

text \<open>
  The module's variables: the set \<^verbatim>\<open>clients\<close> in its insertion order, the upstream
  socket \<^verbatim>\<open>kucoinWs\<close> (\<open>None\<close> is \<^verbatim>\<open>null\<close>) and \<^verbatim>\<open>kucoinWsUrl\<close>, both given by the
  endpoint and the token of the URL.
\<close>

record relay =
  clients :: "conn list"
  kucoinWs :: "(jsval \<times> jsval) option"
  kucoinWsUrl :: "(jsval \<times> jsval) option"

subsection \<open>Fan-out\<close>

definition broadcast :: "relay \<Rightarrow> (conn \<Rightarrow> readyState) \<Rightarrow> out_msg \<Rightarrow> effect list" where
  "broadcast st rs data =
     map (\<lambda>client. ClientSend client data) (filter (\<lambda>client. rs client = OPEN) (clients st))"

subsection \<open>The upstream connection\<close>

text \<open>
  The \<^verbatim>\<open>try\<close> block of \<^verbatim>\<open>connectToKuCoin\<close>: the endpoint and the token of the
  bootstrap response, both printed into the URL.
\<close>

definition fetch_endpoint :: "http_result \<Rightarrow> error + jsval \<times> jsval" where
  "fetch_endpoint boot =
     (case boot of
        Rejected m \<Rightarrow> Inl (RequestFailed m)
      | Response body \<Rightarrow>
          bindE (get_prop body ''data'') (\<lambda>d.
          bindE (get_prop d ''instanceServers'') (\<lambda>servers.
          bindE (index servers 0) (\<lambda>server.
          bindE (get_prop server ''endpoint'') (\<lambda>endpoint.
          bindE (get_prop body ''data'') (\<lambda>d'.
          bindE (get_prop d' ''token'') (\<lambda>token.
            if stringifiable endpoint \<and> stringifiable token then Inr (endpoint, token)
            else Inl TypeError)))))))"

text \<open>
  \<^verbatim>\<open>connectToKuCoin\<close>. After the \<^verbatim>\<open>try\<close> block, outside it, the socket is made with
  \<^verbatim>\<open>new WebSocket(kucoinWsUrl)\<close>. The constructor belongs to the socket library: it
  parses the URL and throws a \<^verbatim>\<open>SyntaxError\<close> when it is not a valid WebSocket URL.
  Its verdict on the URL printed from an endpoint and a token is given to the model as
  the function \<open>valid_url\<close>. The result is the module's variables, the effects, and what
  the call throws, if anything; nothing catches it.
\<close>

definition connectToKuCoin ::
  "(jsval \<Rightarrow> jsval \<Rightarrow> bool) \<Rightarrow> relay \<Rightarrow> http_result \<Rightarrow> relay \<times> effect list \<times> error option" where
  "connectToKuCoin valid_url st boot =
     (case fetch_endpoint boot of
        Inl e \<Rightarrow> (st, [HttpPost, SetTimeout 10000], None)
      | Inr url \<Rightarrow>
          if valid_url (fst url) (snd url) then
            (st\<lparr>kucoinWsUrl := Some url, kucoinWs := Some url\<rparr>,
             [HttpPost, NewWebSocket (fst url) (snd url)], None)
          else (st\<lparr>kucoinWsUrl := Some url\<rparr>, [HttpPost], Some SyntaxError))"

text \<open>
  The handler of upstream messages. A message is a candle update when its
  \<^verbatim>\<open>type\<close> is \<^verbatim>\<open>'message'\<close> and its \<^verbatim>\<open>subject\<close> is truthy and includes
  \<^verbatim>\<open>'candle.stick'\<close>; \<^verbatim>\<open>&&\<close> evaluates from the left and stops at the first falsy
  operand.
\<close>

definition is_candle_update :: "jsval \<Rightarrow> error + bool" where
  "is_candle_update msg =
     bindE (get_prop msg ''type'') (\<lambda>ty.
       if ty = JString ''message'' then
         bindE (get_prop msg ''subject'') (\<lambda>subject.
           if truthy subject then js_includes subject ''candle.stick'' else Inr False)
       else Inr False)"

definition kucoinWs_on_message ::
  "relay \<Rightarrow> (conn \<Rightarrow> readyState) \<Rightarrow> frame \<Rightarrow> error + effect list" where
  "kucoinWs_on_message st rs data =
     (case data of
        Unparsable \<Rightarrow> Inl SyntaxError
      | Parsed msg \<Rightarrow>
          bindE (is_candle_update msg) (\<lambda>update.
            if update then
              bindE (get_prop msg ''data'') (\<lambda>kucoinCandle.
              bindE (realTimeCandle kucoinCandle) (\<lambda>c.
              bindE (get_prop msg ''topic'') (\<lambda>topic.
                Inr (broadcast st rs (Push topic c)))))
            else Inr []))"

text \<open>
  The handler of the upstream socket's \<^verbatim>\<open>close\<close> event, with the status code (if the
  peer gave one) and the reason, and the handler of its \<^verbatim>\<open>error\<close> event, which calls
  \<^verbatim>\<open>kucoinWs.close()\<close> on the module's variable.
\<close>

definition kucoinWs_on_close :: "relay \<Rightarrow> nat option \<Rightarrow> string \<Rightarrow> relay \<times> effect list" where
  "kucoinWs_on_close st code reason = (st\<lparr>kucoinWs := None\<rparr>, [SetTimeout 5000])"

definition kucoinWs_on_error :: "relay \<Rightarrow> error + effect list" where
  "kucoinWs_on_error st =
     (case kucoinWs st of None \<Rightarrow> Inl TypeError | Some ws \<Rightarrow> Inr [UpstreamClose])"

subsection \<open>Downstream connections\<close>

definition wss_on_connection :: "relay \<Rightarrow> conn \<Rightarrow> relay" where
  "wss_on_connection st clientWs =
     st\<lparr>clients := (if clientWs \<in> set (clients st) then clients st
                     else clients st @ [clientWs])\<rparr>"

definition clientWs_on_close :: "relay \<Rightarrow> conn \<Rightarrow> relay" where
  "clientWs_on_close st clientWs = st\<lparr>clients := removeAll clientWs (clients st)\<rparr>"

text \<open>
  The \<^verbatim>\<open>try\<close> block of the history request, given the answer of the GET: the
  message it sends, or what it throws.
\<close>

definition fetch_history :: "http_result \<Rightarrow> error + out_msg" where
  "fetch_history answer =
     (case answer of
        Rejected m \<Rightarrow> Inl (RequestFailed m)
      | Response body \<Rightarrow>
          bindE (get_prop body ''data'') (\<lambda>kucoinData.
            if \<not> isArray kucoinData \<or> length (elements kucoinData) = 0 then
              Inr (HistoryData [])
            else
              bindE (formattedCandles (elements kucoinData)) (\<lambda>cs.
                Inr (HistoryData (finalCandles cs)))))"

text \<open>The \<^verbatim>\<open>catch\<close> block answers every error with one fixed message.\<close>

definition history_reply :: "http_result \<Rightarrow> out_msg" where
  "history_reply answer =
     (case fetch_history answer of
        Inl e \<Rightarrow> ErrorMessage ''Failed to fetch history.''
      | Inr m \<Rightarrow> m)"

text \<open>
  The \<^verbatim>\<open>try\<close> and \<^verbatim>\<open>catch\<close> of a history request. The first statement of the
  \<^verbatim>\<open>try\<close> block prints \<^verbatim>\<open>symbol\<close> and \<^verbatim>\<open>interval\<close> into a log line, which
  throws when one of them does not convert to a string; the GET is then never made and
  the \<^verbatim>\<open>catch\<close> block answers.
\<close>

definition request_history :: "conn \<Rightarrow> jsval \<Rightarrow> jsval \<Rightarrow> http_result \<Rightarrow> effect list" where
  "request_history clientWs symbol interval answer =
     (if stringifiable symbol \<and> stringifiable interval then
        [HttpGet symbol interval, ClientSend clientWs (history_reply answer)]
      else [ClientSend clientWs (ErrorMessage ''Failed to fetch history.'')])"

text \<open>
  The handler of a downstream message. The answer of the GET is an argument; it is
  looked at only when the request is made.
\<close>

definition clientWs_on_message ::
  "relay \<Rightarrow> conn \<Rightarrow> frame \<Rightarrow> http_result \<Rightarrow> error + relay \<times> effect list" where
  "clientWs_on_message st clientWs message answer =
     (case message of
        Unparsable \<Rightarrow> Inl SyntaxError
      | Parsed msg \<Rightarrow>
          bindE (get_prop msg ''topic'') (\<lambda>topic.
            if topic = JString ''request_history'' then
              bindE (get_prop msg ''symbol'') (\<lambda>symbol.
              bindE (get_prop msg ''interval'') (\<lambda>interval.
                Inr (st, request_history clientWs symbol interval answer)))
            else Inr (st, [])))"

section \<open>Notions the properties are stated with\<close>

text \<open>\<^verbatim>\<open>Number.isInteger\<close>: a finite number with no fractional part.\<close>

fun is_integer :: "jsnum \<Rightarrow> bool" where
  "is_integer (Num q) = (q = of_int \<lfloor>q\<rfloor>)"
| "is_integer n = False"

text \<open>The comparison \<^verbatim>\<open>x < y\<close> of two numbers; it is false when either is \<open>NaN\<close>.\<close>

fun js_lt :: "jsnum \<Rightarrow> jsnum \<Rightarrow> bool" where
  "js_lt (Num a) (Num b) = (a < b)"
| "js_lt (Num a) PosInf = True"
| "js_lt NegInf (Num b) = True"
| "js_lt NegInf PosInf = True"
| "js_lt x y = False"

definition strictly_ascending :: "jsnum list \<Rightarrow> bool" where
  "strictly_ascending ts = sorted_wrt js_lt ts"

definition strictly_descending :: "jsnum list \<Rightarrow> bool" where
  "strictly_descending ts = sorted_wrt (\<lambda>a b. js_lt b a) ts"

text \<open>The comparison \<^verbatim>\<open>x <= y\<close>, and a list that never steps down.\<close>

fun js_le :: "jsnum \<Rightarrow> jsnum \<Rightarrow> bool" where
  "js_le (Num a) (Num b) = (a \<le> b)"
| "js_le (Num a) PosInf = True"
| "js_le NegInf (Num b) = True"
| "js_le NegInf PosInf = True"
| "js_le NegInf NegInf = True"
| "js_le PosInf PosInf = True"
| "js_le x y = False"

definition ascending :: "jsnum list \<Rightarrow> bool" where
  "ascending ts = sorted_wrt js_le ts"

text \<open>
  The raw timestamp of a historical record, \<^verbatim>\<open>parseInt(d[0])\<close>, in milliseconds
  (\<open>NaN\<close> for a record on which the expression throws).
\<close>

definition raw_ms :: "jsval \<Rightarrow> jsnum" where
  "raw_ms d = (case bindE (index d 0) parseInt of Inl e \<Rightarrow> NaN | Inr n \<Rightarrow> n)"

text \<open>The messages a list of effects sends to one connection, and the timers it sets.\<close>

fun received :: "conn \<Rightarrow> effect list \<Rightarrow> out_msg list" where
  "received c [] = []"
| "received c (ClientSend c' m # es) = (if c' = c then m # received c es else received c es)"
| "received c (e # es) = received c es"

fun timers :: "effect list \<Rightarrow> nat list" where
  "timers [] = []"
| "timers (SetTimeout d # es) = d # timers es"
| "timers (e # es) = timers es"

text \<open>
  The normalisation of a raw record as the specification words it: \<^verbatim>\<open>parseInt(r[0]) / 1000\<close>
  is the time, and \<^verbatim>\<open>parseFloat\<close> of \<^verbatim>\<open>r[1]\<close>, \<^verbatim>\<open>r[2]\<close>, \<^verbatim>\<open>r[3]\<close> and
  \<^verbatim>\<open>r[4]\<close> are open, close, high and low. It is compared below with the two
  transformations of the source.
\<close>

definition raw_at :: "jsval list \<Rightarrow> nat \<Rightarrow> jsval" where
  "raw_at r i = (if i < length r then r ! i else JUndefined)"

definition spec_normalize :: "jsval list \<Rightarrow> error + candle" where
  "spec_normalize r =
     bindE (parseInt (raw_at r 0)) (\<lambda>t.
     bindE (parseFloat (raw_at r 1)) (\<lambda>op.
     bindE (parseFloat (raw_at r 2)) (\<lambda>cl.
     bindE (parseFloat (raw_at r 3)) (\<lambda>hi.
     bindE (parseFloat (raw_at r 4)) (\<lambda>lo.
       Inr \<lparr>time = div1000 t, open = op, close = cl, high = hi, low = lo\<rparr>)))))"

text \<open>
  The module's variables when it is loaded, and two assignments of ready states: every
  connection open, and every connection open but one.
\<close>

definition relay0 :: relay where
  "relay0 = \<lparr>clients = [], kucoinWs = None, kucoinWsUrl = None\<rparr>"

definition all_open :: "conn \<Rightarrow> readyState" where
  "all_open c = OPEN"

definition closed_only :: "conn \<Rightarrow> conn \<Rightarrow> readyState" where
  "closed_only b c = (if c = b then CLOSED else OPEN)"

text \<open>
  A socket constructor for the examples. Of the real one only this is used: a URL with
  no scheme, such as the one printed from an endpoint that is \<^verbatim>\<open>undefined\<close>, is
  refused. The example accepts an endpoint that is a string starting with
  \<^verbatim>\<open>ws://\<close> or \<^verbatim>\<open>wss://\<close>, and refuses every other.
\<close>

definition ws_scheme_only :: "jsval \<Rightarrow> jsval \<Rightarrow> bool" where
  "ws_scheme_only endpoint token =
     (case endpoint of
        JString s \<Rightarrow> starts_with s ''ws://'' \<or> starts_with s ''wss://''
      | _ \<Rightarrow> False)"

section \<open>Basic facts\<close>

lemma bindE_Inl [simp]: "bindE (Inl e) f = Inl e"
  by (simp add: bindE_def)

lemma bindE_Inr [simp]: "bindE (Inr x) f = f x"
  by (simp add: bindE_def)

lemma bindE_eq_Inr: "bindE m f = Inr y \<longleftrightarrow> (\<exists>x. m = Inr x \<and> f x = Inr y)"
  by (cases m) simp_all

subsection \<open>Rounding to a double\<close>

lemma bit_length_0 [simp]: "bit_length 0 = 0"
  by (simp add: bit_length.simps)

lemma bit_length_pos: "0 < n \<Longrightarrow> bit_length n = Suc (bit_length (n div 2))"
  by (subst bit_length.simps) simp

lemma bit_length_bounds: "0 < n \<Longrightarrow> 2 ^ (bit_length n - 1) \<le> n \<and> n < 2 ^ bit_length n"
proof (induction n rule: bit_length.induct)
  case (1 n)
  show ?case
  proof (cases "n div 2 = 0")
    case True
    with 1(2) have "n = 1" by (simp add: div_eq_0_iff)
    then show ?thesis by (simp add: bit_length_pos)
  next
    case False
    then have pos: "0 < n div 2" by simp
    from 1(2) have "n \<noteq> 0" by simp
    from 1(1) [OF this pos]
    have ih: "2 ^ (bit_length (n div 2) - 1) \<le> n div 2" "n div 2 < 2 ^ bit_length (n div 2)"
      by simp_all
    have b: "bit_length n = Suc (bit_length (n div 2))" using 1(2) by (rule bit_length_pos)
    have p: "0 < bit_length (n div 2)" using pos by (simp add: bit_length_pos)
    then have "(2::nat) ^ bit_length (n div 2) = 2 * 2 ^ (bit_length (n div 2) - 1)"
      by (cases "bit_length (n div 2)") simp_all
    with ih(1) have "2 ^ bit_length (n div 2) \<le> 2 * (n div 2)" by simp
    also have "\<dots> \<le> n" by simp
    finally have lo: "2 ^ (bit_length n - 1) \<le> n" by (simp add: b)
    from ih(2) have "n div 2 + 1 \<le> 2 ^ bit_length (n div 2)" by simp
    then have "2 * (n div 2) + 2 \<le> 2 * 2 ^ bit_length (n div 2)" by simp
    moreover have "n < 2 * (n div 2) + 2" by linarith
    ultimately have "n < 2 ^ bit_length n" by (simp add: b)
    with lo show ?thesis by simp
  qed
qed


lemma floor_rat_divide_numeral [simp]:
  "\<lfloor>(numeral a :: rat) / numeral b\<rfloor> = numeral a div numeral b"
  using floor_divide_of_int_eq [of "numeral a" "numeral b", where ?'a = rat] by simp

lemma ceiling_rat_divide_numeral [simp]:
  "\<lceil>(numeral a :: rat) / numeral b\<rceil> = - (- numeral a div numeral b)"
  using floor_divide_of_int_eq [of "- numeral a" "numeral b", where ?'a = rat]
  by (simp add: ceiling_def)

lemma exponent_bounds:
  assumes "0 < a"
  shows "power_int 2 (exponent a) \<le> a \<and> a < power_int 2 (exponent a + 1)"
proof (cases "1 \<le> a")
  case True
  define n where "n = nat \<lfloor>a\<rfloor>"
  from True have n: "0 < n" by (simp add: n_def)
  have e: "exponent a = int (bit_length n) - 1" using True by (simp add: exponent_def n_def)
  from n have bl: "0 < bit_length n" by (simp add: bit_length_pos)
  note b = bit_length_bounds [OF n]
  have "of_nat n \<le> a" using True by (simp add: n_def)
  moreover have "a < of_nat n + 1" using True by (simp add: n_def) linarith
  moreover have "(2::rat) ^ (bit_length n - 1) \<le> of_nat n"
  proof -
    from b have "(of_nat (2 ^ (bit_length n - 1)) :: rat) \<le> of_nat n"
      by (simp only: of_nat_le_iff)
    then show ?thesis by simp
  qed
  moreover have "of_nat n + 1 \<le> (2::rat) ^ bit_length n"
  proof -
    from b have "Suc n \<le> 2 ^ bit_length n" by simp
    then have "(of_nat (Suc n) :: rat) \<le> of_nat (2 ^ bit_length n)"
      by (simp only: of_nat_le_iff)
    then show ?thesis by simp
  qed
  moreover have "power_int (2::rat) (int (bit_length n) - 1) = 2 ^ (bit_length n - 1)"
    using bl by (simp add: power_int_def nat_diff_distrib')
  moreover have "power_int (2::rat) (int (bit_length n) - 1 + 1) = 2 ^ bit_length n"
    by simp
  ultimately show ?thesis unfolding e by linarith
next
  case False
  define n where "n = nat (\<lceil>1 / a\<rceil> - 1)"
  from False assms have inv: "1 < 1 / a" by simp
  then have "1 < \<lceil>1 / a\<rceil>" by (simp only: less_ceiling_iff of_int_1)
  then have c: "2 \<le> \<lceil>1 / a\<rceil>" by linarith
  then have n: "0 < n" unfolding n_def by linarith
  have e: "exponent a = - int (bit_length n)" using False by (simp add: exponent_def n_def)
  from n have bl: "0 < bit_length n" by (simp add: bit_length_pos)
  note b = bit_length_bounds [OF n]
  from c have "0 \<le> \<lceil>1 / a\<rceil> - 1" by linarith
  then have nn: "int n = \<lceil>1 / a\<rceil> - 1" by (simp only: n_def nat_0_le)
  from b have "int (2 ^ (bit_length n - 1)) \<le> int n" "int n < int (2 ^ bit_length n)"
    by simp_all
  then have lo: "2 ^ (bit_length n - 1) < \<lceil>1 / a\<rceil>" and hi: "\<lceil>1 / a\<rceil> \<le> 2 ^ bit_length n"
    using nn by simp_all
  from lo have "of_int (2 ^ (bit_length n - 1)) < 1 / a"
    by (simp only: less_ceiling_iff)
  then have lo': "(2::rat) ^ (bit_length n - 1) < 1 / a" by simp
  from hi have "1 / a \<le> of_int (2 ^ bit_length n)"
    by (simp only: ceiling_le_iff)
  then have hi': "1 / a \<le> (2::rat) ^ bit_length n" by simp
  from hi' assms have "1 / 2 ^ bit_length n \<le> a"
    by (simp add: field_simps)
  moreover from lo' assms have "a < 1 / 2 ^ (bit_length n - 1)"
    by (simp add: field_simps)
  moreover have "power_int (2::rat) (- int (bit_length n)) = 1 / 2 ^ bit_length n"
    by (simp add: power_int_def field_simps)
  moreover have "power_int (2::rat) (- int (bit_length n) + 1) = 1 / 2 ^ (bit_length n - 1)"
    using bl by (simp add: power_int_def field_simps nat_diff_distrib')
  ultimately show ?thesis unfolding e by simp
qed

lemma exponent_unique:
  assumes "power_int 2 e \<le> a" and "a < power_int 2 (e + 1)"
  shows "exponent a = e"
proof -
  have pos: "0 < a" using assms(1) zero_less_power_int [of "2::rat" e] by linarith
  note b = exponent_bounds [OF pos]
  have "power_int (2::rat) e < power_int 2 (exponent a + 1)" using assms(1) b by linarith
  then have "e < exponent a + 1"
    using power_int_increasing [of "exponent a + 1" e "2::rat"] by (cases "e < exponent a + 1") auto
  moreover have "power_int (2::rat) (exponent a) < power_int 2 (e + 1)" using assms(2) b by linarith
  then have "exponent a < e + 1"
    using power_int_increasing [of "e + 1" "exponent a" "2::rat"] by (cases "exponent a < e + 1") auto
  ultimately show ?thesis by simp
qed


lemma rne_of_int [simp]: "rne (of_int k) = k"
  by (simp add: rne_def)

lemma rne_0 [simp]: "rne 0 = 0"
  using rne_of_int [of 0] by simp

lemma rne_error: "\<bar>of_int (rne x) - x\<bar> \<le> 1 / 2"
proof -
  have "of_int \<lfloor>x\<rfloor> \<le> x" "x < of_int \<lfloor>x\<rfloor> + 1" by linarith+
  then show ?thesis by (auto simp: rne_def Let_def)
qed

lemma rne_bounds: "\<lfloor>x\<rfloor> \<le> rne x \<and> rne x \<le> \<lfloor>x\<rfloor> + 1"
  by (auto simp: rne_def Let_def)

lemma rne_mono:
  assumes "x \<le> y"
  shows "rne x \<le> rne y"
proof (cases "\<lfloor>x\<rfloor> = \<lfloor>y\<rfloor>")
  case True
  have "x - of_int \<lfloor>x\<rfloor> \<le> y - of_int \<lfloor>x\<rfloor>" using assms by simp
  then show ?thesis using True by (auto simp: rne_def Let_def)
next
  case False
  from assms have "\<lfloor>x\<rfloor> \<le> \<lfloor>y\<rfloor>" by (rule floor_mono)
  with False have "\<lfloor>x\<rfloor> + 1 \<le> \<lfloor>y\<rfloor>" by simp
  with rne_bounds [of x] rne_bounds [of y] show ?thesis by linarith
qed

lemma rne_le: "x \<le> of_int n \<Longrightarrow> rne x \<le> n"
  using rne_mono [of x "of_int n"] by simp

lemma rne_ge: "of_int n \<le> x \<Longrightarrow> n \<le> rne x"
  using rne_mono [of "of_int n" x] by simp

lemma ulp_pos [simp]: "0 < ulp a"
  by (simp add: ulp_def)

lemma ulp_nonneg [simp]: "0 \<le> ulp a"
  using ulp_pos [of a] by linarith

lemma ulp_neq_0 [simp]: "ulp a \<noteq> 0"
  using ulp_pos [of a] by linarith

lemma ulp_times_2_53: "ulp a * 2 ^ 53 = power_int 2 (max (exponent a) (- 1022) + 1)"
  using power_int_add [of "2::rat" "max (exponent a) (- 1022) - 52" 53]
  by (simp add: ulp_def add.commute)

lemma ulp_times_2_52: "ulp a * 2 ^ 52 = power_int 2 (max (exponent a) (- 1022))"
  using power_int_add [of "2::rat" "max (exponent a) (- 1022) - 52" 52]
  by (simp add: ulp_def)

lemma below_next_binade:
  assumes "0 < a"
  shows "a < ulp a * 2 ^ 53"
proof -
  from exponent_bounds [OF assms] have "a < power_int 2 (exponent a + 1)" by simp
  also have "\<dots> \<le> power_int 2 (max (exponent a) (- 1022) + 1)"
    by (intro power_int_increasing) auto
  finally show ?thesis by (simp only: ulp_times_2_53)
qed

lemma round_mag_nonneg: "0 \<le> a \<Longrightarrow> 0 \<le> round_mag a"
proof -
  assume "0 \<le> a"
  then have "of_int 0 \<le> a / ulp a" by simp
  then have "0 \<le> rne (a / ulp a)" by (rule rne_ge)
  then show ?thesis by (simp add: round_mag_def)
qed

lemma round_mag_le_next_binade:
  assumes "0 < a"
  shows "round_mag a \<le> ulp a * 2 ^ 53"
proof -
  from below_next_binade [OF assms] have "a / ulp a \<le> of_int (2 ^ 53)"
    by (simp add: field_simps)
  then have "rne (a / ulp a) \<le> 2 ^ 53" by (rule rne_le)
  then have "(of_int (rne (a / ulp a)) :: rat) \<le> of_int (2 ^ 53)" by (simp only: of_int_le_iff)
  then have "of_int (rne (a / ulp a)) * ulp a \<le> of_int (2 ^ 53) * ulp a"
    by (intro mult_right_mono) simp_all
  then show ?thesis by (simp add: round_mag_def mult.commute)
qed

lemma round_mag_error: "\<bar>round_mag a - a\<bar> \<le> ulp a / 2"
proof -
  have "round_mag a - a = (of_int (rne (a / ulp a)) - a / ulp a) * ulp a"
    by (simp add: round_mag_def field_simps)
  then have "\<bar>round_mag a - a\<bar> = \<bar>of_int (rne (a / ulp a)) - a / ulp a\<bar> * ulp a"
    by (simp add: abs_mult)
  also have "\<dots> \<le> 1 / 2 * ulp a"
    by (intro mult_right_mono rne_error) simp
  finally show ?thesis by simp
qed

lemma round_mag_exact:
  assumes "a / ulp a = of_int m"
  shows "round_mag a = a"
proof -
  have "round_mag a = of_int m * ulp a" by (simp only: round_mag_def assms rne_of_int)
  also have "\<dots> = a / ulp a * ulp a" by (simp only: assms)
  also have "\<dots> = a" by simp
  finally show ?thesis .
qed

text \<open>The doubles: an integer below \<open>2\<^sup>5\<^sup>3\<close> in magnitude times a power of two in range.\<close>

lemma round64_double:
  assumes "k \<noteq> 0" and "\<bar>k\<bar> < 2 ^ 53" and "- 1074 \<le> j" and "j \<le> 971"
  shows "round64 (of_int k * power_int 2 j) = Num (of_int k * power_int 2 j)"
proof -
  define q :: rat where "q = of_int k * power_int 2 j"
  define n where "n = nat \<bar>k\<bar>"
  define b where "b = int (bit_length n)"
  have n: "0 < n" using assms(1) by (simp add: n_def)
  have nk: "int n = \<bar>k\<bar>" by (simp add: n_def)
  from bit_length_bounds [OF n] have "int (2 ^ (bit_length n - 1)) \<le> int n"
    "int n < int (2 ^ bit_length n)" by simp_all
  then have k1: "2 ^ (bit_length n - 1) \<le> \<bar>k\<bar>" and k2: "\<bar>k\<bar> < 2 ^ bit_length n"
    using nk by simp_all
  have bpos: "1 \<le> b" using n by (simp add: b_def bit_length_pos)
  have "(2::int) ^ (bit_length n - 1) < 2 ^ 53" using k1 assms(2) by linarith
  then have "bit_length n - 1 < 53"
    using power_strict_increasing_iff [of "2::int" "bit_length n - 1" 53] by simp
  then have b53: "b \<le> 53" by (simp add: b_def)
  have aq: "\<bar>q\<bar> = of_int \<bar>k\<bar> * power_int 2 j"
    by (simp add: q_def abs_mult)
  have "(of_int (2 ^ (bit_length n - 1)) :: rat) \<le> of_int \<bar>k\<bar>"
    using k1 by (simp only: of_int_le_iff)
  then have "power_int (2::rat) (b - 1) \<le> of_int \<bar>k\<bar>"
    using bpos by (simp add: b_def power_int_def nat_diff_distrib')
  then have "power_int (2::rat) (b - 1) * power_int 2 j \<le> \<bar>q\<bar>"
    unfolding aq by (simp add: mult_right_mono)
  then have lo: "power_int (2::rat) (b - 1 + j) \<le> \<bar>q\<bar>"
    by (simp add: power_int_add)
  have "(of_int \<bar>k\<bar> :: rat) < of_int (2 ^ bit_length n)"
    using k2 by (simp only: of_int_less_iff)
  then have "of_int \<bar>k\<bar> < power_int (2::rat) b"
    by (simp add: b_def)
  then have "\<bar>q\<bar> < power_int (2::rat) b * power_int 2 j"
    unfolding aq by (simp add: mult_strict_right_mono)
  then have hi: "\<bar>q\<bar> < power_int (2::rat) (b - 1 + j + 1)"
    by (simp add: power_int_add)
  have ex: "exponent \<bar>q\<bar> = b - 1 + j" using lo hi by (rule exponent_unique)
  define e where "e = max (b - 1 + j) (- 1022)"
  have u: "ulp \<bar>q\<bar> = power_int 2 (e - 52)" by (simp add: ulp_def ex e_def)
  have d: "0 \<le> j - (e - 52)" using b53 assms(3) by (simp add: e_def)
  have "\<bar>q\<bar> / power_int 2 (e - 52) = of_int \<bar>k\<bar> * power_int 2 (j - (e - 52))"
    unfolding aq by (simp add: power_int_diff)
  also have "\<dots> = of_int \<bar>k\<bar> * of_int (2 ^ nat (j - (e - 52)))"
    using d by (simp add: power_int_def)
  also have "\<dots> = of_int (\<bar>k\<bar> * 2 ^ nat (j - (e - 52)))" by simp
  finally have "\<bar>q\<bar> / ulp \<bar>q\<bar> = of_int (\<bar>k\<bar> * 2 ^ nat (j - (e - 52)))"
    by (simp only: u)
  then have rm: "round_mag \<bar>q\<bar> = \<bar>q\<bar>" by (rule round_mag_exact)
  have "b + j \<le> 1024" using b53 assms(4) by simp
  then have "power_int (2::rat) (b - 1 + j + 1) \<le> power_int 2 1024"
    by (intro power_int_increasing) auto
  with hi have "\<bar>q\<bar> < 2 ^ 1024" by simp
  then have small: "\<not> 2 ^ 1024 \<le> round_mag \<bar>q\<bar>" by (simp only: rm not_le)
  have "q \<noteq> 0" using assms(1) by (simp add: q_def)
  then have "round64 q = Num (if q < 0 then - round_mag \<bar>q\<bar> else round_mag \<bar>q\<bar>)"
    using small by (simp only: round64_def if_False)
  also have "\<dots> = Num q" by (simp only: rm) simp
  finally show ?thesis by (simp add: q_def)
qed

lemma round64_int:
  assumes "\<bar>k\<bar> \<le> 2 ^ 53"
  shows "round64 (of_int k) = Num (of_int k)"
proof (cases "k = 0")
  case True
  then show ?thesis by (simp add: round64_def)
next
  case False
  show ?thesis
  proof (cases "\<bar>k\<bar> = 2 ^ 53")
    case True
    then have "k = 2 ^ 53 \<or> k = - (2 ^ 53)" by linarith
    then show ?thesis
      using round64_double [of 1 53] round64_double [of "- 1" 53] by auto
  next
    case False
    with assms have "\<bar>k\<bar> < 2 ^ 53" by simp
    from round64_double [OF \<open>k \<noteq> 0\<close> this, of 0] show ?thesis by simp
  qed
qed

lemma round_mag_mono:
  assumes "0 < a" and "a \<le> b"
  shows "round_mag a \<le> round_mag b"
proof -
  have b: "0 < b" using assms by simp
  define ea where "ea = max (exponent a) (- 1022)"
  define eb where "eb = max (exponent b) (- 1022)"
  have "power_int 2 (exponent a) \<le> a" using exponent_bounds [OF assms(1)] by simp
  also have "a \<le> b" by fact
  also have "b < power_int 2 (exponent b + 1)" using exponent_bounds [OF b] by simp
  finally have "power_int (2::rat) (exponent a) < power_int 2 (exponent b + 1)" .
  then have "exponent a < exponent b + 1"
    using power_int_increasing [of "exponent b + 1" "exponent a" "2::rat"]
    by (cases "exponent a < exponent b + 1") auto
  then have le: "ea \<le> eb" by (simp add: ea_def eb_def)
  show ?thesis
  proof (cases "ea = eb")
    case True
    then have u: "ulp a = ulp b" by (simp add: ulp_def ea_def eb_def)
    have "a / ulp b \<le> b / ulp b" using assms(2) by (simp add: divide_right_mono)
    then have "rne (a / ulp b) \<le> rne (b / ulp b)" by (rule rne_mono)
    then have "(of_int (rne (a / ulp b)) :: rat) \<le> of_int (rne (b / ulp b))"
      by (simp only: of_int_le_iff)
    then have "of_int (rne (a / ulp b)) * ulp b \<le> of_int (rne (b / ulp b)) * ulp b"
      by (intro mult_right_mono) simp_all
    then show ?thesis by (simp add: round_mag_def u)
  next
    case False
    with le have lt: "ea < eb" by simp
    then have ebx: "eb = exponent b" by (simp add: ea_def eb_def max_def split: if_splits)
    have "round_mag a \<le> ulp a * 2 ^ 53" using assms(1) by (rule round_mag_le_next_binade)
    also have "\<dots> = power_int 2 (ea + 1)" by (simp only: ulp_times_2_53 ea_def)
    also have "\<dots> \<le> power_int 2 eb" using lt by (intro power_int_increasing) auto
    finally have lo: "round_mag a \<le> power_int 2 eb" .
    have "power_int 2 eb \<le> b" using exponent_bounds [OF b] by (simp add: ebx)
    then have "ulp b * 2 ^ 52 \<le> b" by (simp only: ulp_times_2_52 eb_def)
    then have "of_int (2 ^ 52) \<le> b / ulp b" by (simp add: field_simps)
    then have "2 ^ 52 \<le> rne (b / ulp b)" by (rule rne_ge)
    then have "(of_int (2 ^ 52) :: rat) \<le> of_int (rne (b / ulp b))"
      by (simp only: of_int_le_iff)
    then have "of_int (2 ^ 52) * ulp b \<le> of_int (rne (b / ulp b)) * ulp b"
      by (intro mult_right_mono) simp_all
    then have "ulp b * 2 ^ 52 \<le> round_mag b" by (simp add: round_mag_def mult.commute)
    then have "power_int 2 eb \<le> round_mag b" by (simp only: ulp_times_2_52 eb_def)
    with lo show ?thesis by linarith
  qed
qed


lemma round64_pos:
  "0 < q \<Longrightarrow> round64 q = (if 2 ^ 1024 \<le> round_mag q then PosInf else Num (round_mag q))"
  by (simp add: round64_def)

lemma round64_neg:
  "q < 0 \<Longrightarrow>
   round64 q = (if 2 ^ 1024 \<le> round_mag (- q) then NegInf else Num (- round_mag (- q)))"
  by (simp add: round64_def)

lemma round64_0 [simp]: "round64 0 = Num 0"
  by (simp add: round64_def)

lemma round64_not_NaN [simp]: "round64 q \<noteq> NaN"
  by (simp add: round64_def)

lemma round64_mono:
  assumes "x \<le> y"
  shows "js_le (round64 x) (round64 y)"
proof -
  consider "0 < x" | "y < 0" | "x \<le> 0" "0 \<le> y" by linarith
  then show ?thesis
  proof cases
    case 1
    then have y: "0 < y" using assms by simp
    from round_mag_mono [OF 1 assms] show ?thesis
      by (auto simp: round64_pos [OF 1] round64_pos [OF y])
  next
    case 2
    then have x: "x < 0" using assms by simp
    have "0 < - y" "- y \<le> - x" using 2 assms by simp_all
    from round_mag_mono [OF this] show ?thesis
      by (auto simp: round64_neg [OF 2] round64_neg [OF x])
  next
    case 3
    have a: "0 \<le> round_mag (- x)" using 3(1) by (intro round_mag_nonneg) simp
    have b: "0 \<le> round_mag y" using 3(2) by (intro round_mag_nonneg)
    show ?thesis
    proof (cases "x = 0")
      case x0: True
      show ?thesis
      proof (cases "y = 0")
        case True
        with x0 show ?thesis by simp
      next
        case False
        with 3(2) have "0 < y" by simp
        then show ?thesis using b by (simp add: x0 round64_pos)
      qed
    next
      case False
      with 3(1) have xn: "x < 0" by simp
      show ?thesis
      proof (cases "y = 0")
        case True
        then show ?thesis using a by (simp add: round64_neg [OF xn])
      next
        case False
        with 3(2) have "0 < y" by simp
        then show ?thesis using a b by (simp add: round64_neg [OF xn] round64_pos)
      qed
    qed
  qed
qed

lemma js_lt_not_le: "js_lt x y \<Longrightarrow> \<not> js_le y x"
  by (cases x; cases y) simp_all

lemma js_lt_le: "js_lt x y \<Longrightarrow> js_le x y"
  by (cases x; cases y) simp_all

lemma div1000_mono: "js_lt a b \<Longrightarrow> js_le (div1000 a) (div1000 b)"
proof (cases a; cases b)
  fix x y
  assume "a = Num x" "b = Num y" "js_lt a b"
  then show ?thesis using round64_mono [of "x / 1000" "y / 1000"] by simp
next
  fix y
  assume "a = NegInf" "b = Num y"
  then show ?thesis by (cases "round64 (y / 1000)") simp_all
next
  fix x
  assume "a = Num x" "b = PosInf"
  then show ?thesis by (cases "round64 (x / 1000)") simp_all
qed simp_all

lemma div1000_reflects: "js_lt (div1000 a) (div1000 b) \<Longrightarrow> js_lt a b"
proof (cases a; cases b)
  fix x y
  assume ab: "a = Num x" "b = Num y" and lt: "js_lt (div1000 a) (div1000 b)"
  show ?thesis
  proof (rule ccontr)
    assume "\<not> js_lt a b"
    then have "y \<le> x" using ab by simp
    then have "js_le (div1000 b) (div1000 a)"
      using round64_mono [of "y / 1000" "x / 1000"] ab by simp
    with js_lt_not_le [OF lt] show False by simp
  qed
next
  fix x
  assume "a = Num x" "b = NegInf" "js_lt (div1000 a) (div1000 b)"
  then show ?thesis by (cases "round64 (x / 1000)") simp_all
next
  fix y
  assume "a = PosInf" "b = Num y" "js_lt (div1000 a) (div1000 b)"
  then show ?thesis by simp
qed simp_all

lemma rne_unique:
  assumes "\<bar>x - of_int m\<bar> < 1 / 2"
  shows "rne x = m"
proof -
  from assms have "of_int m - 1 / 2 < x" "x < of_int m + 1 / 2" by linarith+
  then have "\<lfloor>x\<rfloor> = m \<and> x - of_int m < 1 / 2 \<or> \<lfloor>x\<rfloor> = m - 1 \<and> 1 / 2 < x - of_int (m - 1)"
    by (cases "of_int m \<le> x") (auto simp: floor_eq_iff)
  then show ?thesis by (auto simp: rne_def Let_def)
qed

text \<open>How a rounding is computed: the binade of the number, then the nearest mantissa.\<close>

lemma round64_eval:
  assumes "power_int 2 e \<le> a" and "a < power_int 2 (e + 1)"
    and "- 1022 \<le> e" and "e \<le> 52"
    and "\<bar>a * 2 ^ nat (52 - e) - of_int m\<bar> < 1 / 2"
  shows "round64 a = Num (of_int m / 2 ^ nat (52 - e))"
proof -
  have pos: "0 < a" using assms(1) zero_less_power_int [of "2::rat" e] by linarith
  have ex: "exponent a = e" using assms(1,2) by (rule exponent_unique)
  have u: "ulp a = 1 / 2 ^ nat (52 - e)"
    using assms(3,4) by (simp add: ulp_def ex power_int_def power_one_over)
  have "a / ulp a = a * 2 ^ nat (52 - e)" by (simp add: u)
  then have r: "rne (a / ulp a) = m" using assms(5) by (simp only: rne_unique)
  have "round_mag a = of_int m * ulp a" by (simp only: round_mag_def r)
  then have rm: "round_mag a = of_int m / 2 ^ nat (52 - e)" by (simp add: u)
  have mx: "max (exponent a) (- 1022) = e" using assms(3) ex by simp
  have "round_mag a \<le> ulp a * 2 ^ 53" using pos by (rule round_mag_le_next_binade)
  also have "\<dots> = power_int 2 (e + 1)" by (simp only: ulp_times_2_53 mx)
  also have "\<dots> < power_int 2 1024" using assms(4) by (intro power_int_strict_increasing) auto
  finally have "\<not> 2 ^ 1024 \<le> round_mag a" by simp
  then show ?thesis using pos by (simp only: round64_pos rm if_False)
qed

lemma tie_example: "div1000 (Num 9000000000000002) = div1000 (Num 9000000000000001)"
proof -
  have "round64 (9000000000000002 / 1000) = Num (of_int 4608000000000001 / 2 ^ nat (52 - 43))"
    by (rule round64_eval) simp_all
  moreover have "round64 (9000000000000001 / 1000) = Num (of_int 4608000000000001 / 2 ^ nat (52 - 43))"
    by (rule round64_eval) simp_all
  ultimately show ?thesis by simp
qed


lemma exponent_nonneg: "1 \<le> a \<Longrightarrow> 0 \<le> exponent a"
proof -
  assume a: "1 \<le> a"
  then have "0 < nat \<lfloor>a\<rfloor>" by simp
  then have "0 < bit_length (nat \<lfloor>a\<rfloor>)" by (simp add: bit_length_pos)
  then show ?thesis using a by (simp add: exponent_def)
qed

lemma round_mag_of_int: "\<exists>M. round_mag (of_int \<bar>n\<bar>) = of_int M"
proof (cases "n = 0")
  case True
  then show ?thesis by (simp add: round_mag_def)
next
  case False
  define a :: rat where "a = of_int \<bar>n\<bar>"
  define e where "e = exponent a"
  from False have "1 \<le> \<bar>n\<bar>" by simp
  then have "(of_int 1 :: rat) \<le> of_int \<bar>n\<bar>" by (simp only: of_int_le_iff)
  then have a1: "1 \<le> a" by (simp add: a_def)
  then have e0: "0 \<le> e" unfolding e_def by (rule exponent_nonneg)
  then have u: "ulp a = power_int 2 (e - 52)" by (simp add: ulp_def e_def)
  show ?thesis
  proof (cases "e \<le> 52")
    case True
    then have "ulp a = 1 / 2 ^ nat (52 - e)" by (simp add: u power_int_def power_one_over)
    then have "a / ulp a = of_int (\<bar>n\<bar> * 2 ^ nat (52 - e))" by (simp add: a_def)
    then have "round_mag a = a" by (rule round_mag_exact)
    then have "round_mag (of_int \<bar>n\<bar>) = of_int \<bar>n\<bar>" by (simp only: a_def)
    then show ?thesis by blast
  next
    case False
    then have "ulp a = of_int (2 ^ nat (e - 52))" by (simp add: u power_int_def)
    then have "round_mag a = of_int (rne (a / ulp a) * 2 ^ nat (e - 52))"
      by (simp add: round_mag_def)
    then show ?thesis unfolding a_def by blast
  qed
qed

lemma round64_of_int_cases:
  "round64 (of_int n) = PosInf \<or> round64 (of_int n) = NegInf \<or>
   (\<exists>m. round64 (of_int n) = Num (of_int m))"
proof (cases "n = 0")
  case True
  have "round64 (of_int n) = Num (of_int 0)" using True by simp
  then show ?thesis by blast
next
  case False
  from round_mag_of_int [of n] obtain M where M: "round_mag (of_int \<bar>n\<bar>) = of_int M" ..
  have a: "\<bar>of_int n :: rat\<bar> = of_int \<bar>n\<bar>" by simp
  have n0: "(of_int n :: rat) \<noteq> 0" using False by simp
  show ?thesis
  proof (cases "(2::rat) ^ 1024 \<le> round_mag \<bar>of_int n\<bar>")
    case True
    with n0 have "round64 (of_int n) = (if (of_int n :: rat) < 0 then NegInf else PosInf)"
      by (simp only: round64_def if_True if_False)
    then show ?thesis by (cases "(of_int n :: rat) < 0") simp_all
  next
    case False
    with n0 have "round64 (of_int n) =
        Num (if (of_int n :: rat) < 0 then - round_mag \<bar>of_int n\<bar> else round_mag \<bar>of_int n\<bar>)"
      by (simp only: round64_def if_False)
    also have "\<dots> = Num (of_int (if (of_int n :: rat) < 0 then - M else M))"
      by (simp only: a M) simp
    finally show ?thesis by blast
  qed
qed

lemma div1000_multiple:
  assumes "\<bar>k\<bar> \<le> 2 ^ 53"
  shows "div1000 (Num (of_int (1000 * k))) = Num (of_int k)"
  using round64_int [OF assms] by simp

lemma div1000_not_integer:
  assumes "\<bar>n\<bar> \<le> 2 ^ 53" and "\<not> 1000 dvd n"
  shows "\<not> is_integer (div1000 (Num (of_int n)))"
proof
  assume int: "is_integer (div1000 (Num (of_int n)))"
  define a :: rat where "a = of_int \<bar>n\<bar> / 1000"
  from assms(2) have n0: "n \<noteq> 0" by auto
  then have pos: "0 < a" by (simp add: a_def)
  have "(of_int \<bar>n\<bar> :: rat) \<le> of_int (2 ^ 53)" using assms(1) by (simp only: of_int_le_iff)
  then have "a < 2 ^ 44" by (simp add: a_def)
  then have "a < power_int 2 44" by simp
  with exponent_bounds [OF pos] have "power_int (2::rat) (exponent a) < power_int 2 44"
    by linarith
  then have "exponent a < 44"
    using power_int_increasing [of 44 "exponent a" "2::rat"]
    by (cases "exponent a < 44") auto
  then have "max (exponent a) (- 1022) - 52 \<le> - 9" by simp
  then have "ulp a \<le> power_int 2 (- 9)"
    unfolding ulp_def by (intro power_int_increasing) auto
  then have u: "ulp a \<le> 1 / 512" by (simp add: power_int_def power_one_over)
  from round_mag_error [of a] u have err: "\<bar>round_mag a - a\<bar> \<le> 1 / 1024" by linarith
  have "a < 17592186044416" using \<open>a < 2 ^ 44\<close> by simp
  with err have "round_mag a < 35184372088832" by linarith
  then have "round_mag a < 2 ^ 45" by simp
  also have "(2::rat) ^ 45 \<le> 2 ^ 1024" by (rule power_increasing) simp_all
  finally have small: "\<not> 2 ^ 1024 \<le> round_mag a" by (simp only: not_le)
  have aq: "\<bar>of_int n / 1000 :: rat\<bar> = a" by (simp add: a_def)
  have q0: "(of_int n / 1000 :: rat) \<noteq> 0" using n0 by simp
  have r: "round64 (of_int n / 1000) = Num (if (of_int n / 1000 :: rat) < 0 then - round_mag a else round_mag a)"
    using small q0 by (simp only: round64_def aq if_False)
  from int obtain J where "(if (of_int n / 1000 :: rat) < 0 then - round_mag a else round_mag a) = of_int J"
    by (auto simp: r)
  then have "\<exists>K. round_mag a = of_int K"
    by (cases "(of_int n / 1000 :: rat) < 0") (auto intro: exI [of _ "- J"] simp: minus_equation_iff [of "round_mag a"])
  then obtain K where K: "round_mag a = of_int K" ..
  from err have "\<bar>of_int K - a\<bar> \<le> 1 / 1024" by (simp only: K)
  then have "\<bar>of_int K - of_int \<bar>n\<bar> / 1000 :: rat\<bar> \<le> 1 / 1024" by (simp only: a_def)
  then have "\<bar>of_int (1000 * K - \<bar>n\<bar>) :: rat\<bar> \<le> 1000 / 1024" by (simp add: field_simps)
  then have "\<bar>of_int (1000 * K - \<bar>n\<bar>) :: rat\<bar> < of_int 1" by simp
  then have "\<bar>1000 * K - \<bar>n\<bar>\<bar> < 1" by (simp only: of_int_abs [symmetric] of_int_less_iff)
  then have "\<bar>n\<bar> = 1000 * K" by linarith
  then have "1000 dvd \<bar>n\<bar>" by simp
  with assms(2) show False by simp
qed

subsection \<open>Doubles that the examples use\<close>

lemma round64_numeral: "(numeral w :: int) \<le> 2 ^ 53 \<Longrightarrow> round64 (numeral w) = Num (numeral w)"
  using round64_int [of "numeral w"] by simp

lemma round64_1: "round64 1 = Num 1"
  using round64_int [of 1] by simp

lemma round64_halves:
  "(numeral w :: int) < 2 ^ 53 \<Longrightarrow> round64 (numeral w / 2) = Num (numeral w / 2)"
  using round64_double [of "numeral w" "- 1"] by (simp add: power_int_minus)

lemma round64_quarters:
  "(numeral w :: int) < 2 ^ 53 \<Longrightarrow> round64 (numeral w / 4) = Num (numeral w / 4)"
  using round64_double [of "numeral w" "- 2"] by (simp add: power_int_minus)

subsection \<open>\<^verbatim>\<open>parseInt\<close> gives \<open>NaN\<close>, an infinity or an integer\<close>

lemma parseInt_string_integral:
  "parseInt_string s = NaN \<or> parseInt_string s = PosInf \<or> parseInt_string s = NegInf \<or>
   (\<exists>n. parseInt_string s = Num (of_int n))"
proof -
  obtain neg s1 where r: "read_sign (dropWhile is_space s) = (neg, s1)"
    by (cases "read_sign (dropWhile is_space s)")
  define hex where "hex = (starts_with s1 ''0x'' \<or> starts_with s1 ''0X'')"
  define ds where
    "ds = (if hex then digits_prefix hex_digit (drop 2 s1) else digits_prefix dec_digit s1)"
  define n where "n = int (digits_value (if hex then 16 else 10) ds)"
  have p: "parseInt_string s =
      (if ds = [] then NaN else round64 (of_int (if neg then - n else n)))"
    by (simp add: parseInt_string_def r Let_def hex_def ds_def n_def)
  show ?thesis
    using round64_of_int_cases [of "if neg then - n else n"] by (auto simp: p)
qed

lemma parseInt_number_integral:
  "parseInt_number x = NaN \<or> (\<exists>n. parseInt_number x = Num (of_int n))"
  by (cases x) (auto simp: parseInt_number.simps(1) Let_def)

lemma parseInt_integral:
  "parseInt v = Inr x \<Longrightarrow>
   x = NaN \<or> x = PosInf \<or> x = NegInf \<or> (\<exists>n. x = Num (of_int n))"
proof (induction v arbitrary: x rule: parseInt.induct)
  case (1 s)
  then show ?case using parseInt_string_integral [of s] by auto
next
  case (2 n)
  then show ?case using parseInt_number_integral [of n] by auto
next
  case (4 y ys)
  then show ?case by (auto split: if_splits)
qed (auto split: if_splits)

text \<open>A number with no fraction and at most twenty digits is read back as it is.\<close>

lemma num_digits_pos: "0 < num_digits n"
  by (subst num_digits.simps) simp

lemma num_digits_le: "n < 10 ^ m \<Longrightarrow> 0 < m \<Longrightarrow> num_digits n \<le> m"
proof (induction m arbitrary: n)
  case 0
  then show ?case by simp
next
  case (Suc m)
  show ?case
  proof (cases "n < 10")
    case True
    then have "num_digits n = 1" by (subst num_digits.simps) simp
    then show ?thesis by simp
  next
    case False
    with Suc.prems have m: "0 < m" by (cases m) auto
    from Suc.prems have "n div 10 < 10 ^ m" by (simp add: less_mult_imp_div_less)
    then have "num_digits (n div 10) \<le> m" using m by (rule Suc.IH)
    moreover from False have "num_digits n = Suc (num_digits (n div 10))"
      by (subst num_digits.simps) simp
    ultimately show ?thesis by simp
  qed
qed

lemma parseInt_number_int:
  assumes "\<bar>n\<bar> < 10 ^ 20"
  shows "parseInt_number (Num (of_int n)) = Num (of_int n)"
proof (cases "n = 0")
  case True
  then show ?thesis by (simp add: parseInt_number.simps(1))
next
  case False
  define a :: rat where "a = \<bar>of_int n\<bar>"
  have a: "a = of_int \<bar>n\<bar>" by (simp add: a_def)
  from False have "1 \<le> \<bar>n\<bar>" by simp
  then have "(1 :: rat) \<le> of_int \<bar>n\<bar>" by (simp only: of_int_1_le_iff)
  then have big: "1 \<le> a" by (simp only: a)
  have fl: "\<lfloor>a\<rfloor> = \<bar>n\<bar>" by (simp only: a floor_of_int)
  have "nat \<bar>n\<bar> < nat (10 ^ 20)" using assms by (simp only: nat_mono_iff)
  then have "nat \<bar>n\<bar> < 10 ^ 20" by simp
  then have "num_digits (nat \<bar>n\<bar>) \<le> 20" by (rule num_digits_le) simp
  moreover have "0 < num_digits (nat \<bar>n\<bar>)" by (rule num_digits_pos)
  moreover have "decade a = int (num_digits (nat \<bar>n\<bar>)) - 1"
    using big by (simp add: decade_def fl)
  ultimately have dec: "0 \<le> decade a \<and> decade a \<le> 19" by simp
  have "decimal_point a = decade a + 1 \<or> decimal_point a = decade a + 2"
    by (simp add: decimal_point_def)
  with dec have dp: "\<not> (21 < decimal_point a \<or> decimal_point a \<le> - 6)" by auto
  have q0: "(of_int n :: rat) \<noteq> 0" using False by simp
  have "parseInt_number (Num (of_int n)) =
      Num (of_int (if (of_int n :: rat) < 0 then - \<lfloor>a\<rfloor> else \<lfloor>a\<rfloor>))"
    unfolding parseInt_number.simps(1) Let_def a_def [symmetric]
    using dp q0 by (simp only: if_False)
  also have "\<dots> = Num (of_int n)"
    by (simp add: fl)
  finally show ?thesis .
qed

lemma parseInt_number_numeral:
  "(numeral w :: int) < 10 ^ 20 \<Longrightarrow> parseInt_number (Num (numeral w)) = Num (numeral w)"
  using parseInt_number_int [of "numeral w"] by simp

text \<open>
  Up to \<open>2\<^sup>5\<^sup>3\<close> in magnitude, a timestamp is a whole number of seconds exactly when
  it is a multiple of 1000.
\<close>

lemma is_integer_div1000:
  assumes "\<bar>n\<bar> \<le> 2 ^ 53"
  shows "is_integer (div1000 (Num (of_int n))) \<longleftrightarrow> 1000 dvd n"
proof
  assume "is_integer (div1000 (Num (of_int n)))"
  then show "1000 dvd n" using div1000_not_integer [OF assms] by blast
next
  assume "1000 dvd n"
  then obtain k where k: "n = 1000 * k" by (auto simp: dvd_def)
  with assms have "\<bar>k\<bar> \<le> 2 ^ 53" by simp
  then have "div1000 (Num (of_int (1000 * k))) = Num (of_int k)" by (rule div1000_multiple)
  then show "is_integer (div1000 (Num (of_int n)))" by (simp only: k is_integer.simps floor_of_int)
qed

lemma div1000_NaN: "div1000 t = NaN \<longleftrightarrow> t = NaN"
  by (cases t) simp_all

subsection \<open>Values that convert to a string are parsed without an error\<close>

lemma parseInt_stringifiable: "stringifiable v \<Longrightarrow> \<exists>n. parseInt v = Inr n"
  by (induction v rule: parseInt.induct) auto

lemma parseFloat_stringifiable: "stringifiable v \<Longrightarrow> \<exists>n. parseFloat v = Inr n"
  by (induction v rule: parseFloat.induct) auto

subsection \<open>The two transformations\<close>

lemma realTimeCandle_formattedCandle:
  "get_prop kucoinCandle ''candles'' = Inr d \<Longrightarrow> realTimeCandle kucoinCandle = formattedCandle d"
  by (simp add: realTimeCandle_def formattedCandle_def candles_at_def)

lemma formattedCandle_time:
  "formattedCandle d = Inr c \<Longrightarrow> bindE (index d 0) parseInt = Inr t \<Longrightarrow> time c = div1000 t"
  by (auto simp: formattedCandle_def bindE_eq_Inr)

lemma formattedCandle_raw_ms: "formattedCandle d = Inr c \<Longrightarrow> time c = div1000 (raw_ms d)"
  by (auto simp: formattedCandle_def raw_ms_def bindE_eq_Inr)

lemma formattedCandles_times:
  "formattedCandles ds = Inr cs \<Longrightarrow> map time cs = map (\<lambda>d. div1000 (raw_ms d)) ds"
proof (induction ds arbitrary: cs)
  case Nil
  then show ?case by simp
next
  case (Cons d ds)
  then show ?case by (auto simp: bindE_eq_Inr formattedCandle_raw_ms)
qed

lemma index_stringifiable:
  "\<forall>x \<in> set cs. stringifiable x \<Longrightarrow> \<exists>v. index (JArray cs) i = Inr v \<and> stringifiable v"
  by simp

subsection \<open>Order\<close>

text \<open>
  The division by 1000 keeps the order of two numbers, but two timestamps that differ
  by less than the spacing of the doubles around their quotients may get the same
  time.
\<close>

lemma descending_div1000_reflects:
  assumes "strictly_descending (map (\<lambda>d. div1000 (f d)) ds)"
  shows "strictly_descending (map f ds)"
proof -
  from assms have "sorted_wrt (\<lambda>x y. js_lt (div1000 (f y)) (div1000 (f x))) ds"
    by (simp add: strictly_descending_def sorted_wrt_map)
  then have "sorted_wrt (\<lambda>x y. js_lt (f y) (f x)) ds"
    by (rule sorted_wrt_mono_rel [rotated]) (rule div1000_reflects)
  then show ?thesis by (simp add: strictly_descending_def sorted_wrt_map)
qed

lemma ascending_rev: "strictly_ascending (rev ts) = strictly_descending ts"
  by (simp add: strictly_ascending_def strictly_descending_def sorted_wrt_rev)

lemma descending_div1000_ascending:
  assumes "strictly_descending (map f ds)"
  shows "ascending (rev (map (\<lambda>d. div1000 (f d)) ds))"
proof -
  from assms have "sorted_wrt (\<lambda>x y. js_lt (f y) (f x)) ds"
    by (simp add: strictly_descending_def sorted_wrt_map)
  then have "sorted_wrt (\<lambda>x y. js_le (div1000 (f y)) (div1000 (f x))) ds"
    by (rule sorted_wrt_mono_rel [rotated]) (simp add: div1000_mono)
  then show ?thesis
    by (simp add: ascending_def sorted_wrt_rev sorted_wrt_map)
qed

text \<open>
  A magnitude below \<open>2\<^sup>4\<^sup>3\<close> is rounded by at most \<open>2\<^sup>-\<^sup>1\<^sup>1\<close>, which is less than
  half a thousandth: the times of two different integer timestamps below \<open>2\<^sup>5\<^sup>2\<close>
  milliseconds are different, and in the same order.
\<close>

lemma round64_near:
  assumes "\<bar>q\<bar> < 2 ^ 43"
  shows "\<exists>r. round64 q = Num r \<and> \<bar>r - q\<bar> \<le> 1 / 2 ^ 11"
proof (cases "q = 0")
  case True
  then show ?thesis by simp
next
  case False
  define a where "a = \<bar>q\<bar>"
  have pos: "0 < a" using False by (simp add: a_def)
  have small: "a < power_int 2 43" using assms by (simp add: a_def)
  from exponent_bounds [OF pos] have "power_int 2 (exponent a) \<le> a" by simp
  with small have lt: "power_int (2::rat) (exponent a) < power_int 2 43" by simp
  have e: "exponent a \<le> 42"
  proof (rule ccontr)
    assume "\<not> exponent a \<le> 42"
    then have "43 \<le> exponent a" by simp
    then have "power_int (2::rat) 43 \<le> power_int 2 (exponent a)"
      by (intro power_int_increasing) simp_all
    with lt show False by simp
  qed
  have "ulp a \<le> power_int 2 (- 10)"
    unfolding ulp_def using e by (intro power_int_increasing) simp_all
  then have u: "ulp a \<le> 1 / 2 ^ 10" by (simp add: power_int_minus divide_simps)
  have err: "\<bar>round_mag a - a\<bar> \<le> 1 / 2 ^ 11"
    using round_mag_error [of a] u by simp
  have half: "(1::rat) / 2 ^ 11 = 1 / 2048" by simp
  have "a < 8796093022208" using assms by (simp add: a_def)
  with err [unfolded half] have "round_mag a < 8796093022209" by linarith
  also have "\<dots> \<le> 2 ^ 44" by simp
  also have "(2::rat) ^ 44 \<le> 2 ^ 1024" by (rule power_increasing) simp_all
  finally have "round_mag a < 2 ^ 1024" .
  then have fin: "\<not> 2 ^ 1024 \<le> round_mag a" by simp
  show ?thesis
  proof (cases "q < 0")
    case True
    then have "round64 q = Num (- round_mag a)"
      using fin by (simp add: round64_def a_def)
    moreover have "- round_mag a - q = - (round_mag a - a)"
      using True by (simp add: a_def)
    then have "\<bar>- round_mag a - q\<bar> \<le> 1 / 2 ^ 11"
      using err by (simp only: abs_minus_cancel)
    ultimately show ?thesis by blast
  next
    case nonneg: False
    then have "round64 q = Num (round_mag a)"
      using fin False by (simp add: round64_def a_def)
    moreover have "\<bar>round_mag a - q\<bar> \<le> 1 / 2 ^ 11"
      using err nonneg by (simp add: a_def)
    ultimately show ?thesis by blast
  qed
qed

lemma div1000_strict:
  assumes "m < n" and "\<bar>m\<bar> < 2 ^ 52" and "\<bar>n\<bar> < 2 ^ 52"
  shows "js_lt (div1000 (Num (of_int m))) (div1000 (Num (of_int n)))"
proof -
  have bound: "\<bar>k\<bar> < 2 ^ 52 \<Longrightarrow> \<bar>(of_int k :: rat) / 1000\<bar> < 2 ^ 43" for k :: int
  proof -
    assume "\<bar>k\<bar> < 2 ^ 52"
    then have "(of_int \<bar>k\<bar> :: rat) < of_int (2 ^ 52)" by (simp only: of_int_less_iff)
    then have "\<bar>of_int k :: rat\<bar> < 2 ^ 52" by simp
    then show ?thesis by simp
  qed
  from round64_near [OF bound [OF assms(2)]] obtain r
    where r: "round64 (of_int m / 1000) = Num r" "\<bar>r - of_int m / 1000\<bar> \<le> 1 / 2 ^ 11"
    by blast
  from round64_near [OF bound [OF assms(3)]] obtain s
    where s: "round64 (of_int n / 1000) = Num s" "\<bar>s - of_int n / 1000\<bar> \<le> 1 / 2 ^ 11"
    by blast
  have half: "(1::rat) / 2 ^ 11 = 1 / 2048" by simp
  from assms(1) have "m + 1 \<le> n" by simp
  then have "(of_int (m + 1) :: rat) \<le> of_int n" by (simp only: of_int_le_iff)
  then have gap: "(of_int m :: rat) + 1 \<le> of_int n" by simp
  from r(2) [unfolded half] have "r \<le> of_int m / 1000 + 1 / 2048" by linarith
  moreover from s(2) [unfolded half] have "of_int n / 1000 - 1 / 2048 \<le> s" by linarith
  ultimately have "r < s" using gap by linarith
  then show ?thesis by (simp add: r(1) s(1))
qed

lemma descending_div1000_strict:
  assumes "\<forall>d \<in> set ds. \<exists>n. f d = Num (of_int n) \<and> \<bar>n\<bar> < 2 ^ 52"
    and "strictly_descending (map f ds)"
  shows "strictly_descending (map (\<lambda>d. div1000 (f d)) ds)"
proof -
  have step: "js_lt (div1000 (f y)) (div1000 (f x))"
    if "x \<in> set ds" and "y \<in> set ds" and "js_lt (f y) (f x)" for x y
  proof -
    from assms(1) that(1) obtain n where n: "f x = Num (of_int n)" "\<bar>n\<bar> < 2 ^ 52" by blast
    from assms(1) that(2) obtain m where m: "f y = Num (of_int m)" "\<bar>m\<bar> < 2 ^ 52" by blast
    from that(3) have "m < n" by (simp add: n m)
    then show ?thesis using div1000_strict [of m n] n m by simp
  qed
  from assms(2) have "sorted_wrt (\<lambda>x y. js_lt (f y) (f x)) ds"
    by (simp add: strictly_descending_def sorted_wrt_map)
  then have "sorted_wrt (\<lambda>x y. js_lt (div1000 (f y)) (div1000 (f x))) ds"
    by (rule sorted_wrt_mono_rel [rotated]) (rule step)
  then show ?thesis by (simp add: strictly_descending_def sorted_wrt_map)
qed

subsection \<open>The registry and the fan-out\<close>

lemma wss_on_connection_distinct:
  "distinct (clients st) \<Longrightarrow> distinct (clients (wss_on_connection st c))"
  by (simp add: wss_on_connection_def)

lemma clientWs_on_close_distinct:
  "distinct (clients st) \<Longrightarrow> distinct (clients (clientWs_on_close st c))"
  by (simp add: clientWs_on_close_def distinct_removeAll)

lemma received_sends:
  "distinct cs \<Longrightarrow>
   received c (map (\<lambda>client. ClientSend client m) (filter P cs)) =
     (if c \<in> set cs \<and> P c then [m] else [])"
  by (induction cs) auto

lemma received_broadcast:
  "distinct (clients st) \<Longrightarrow>
   received c (broadcast st rs m) = (if c \<in> set (clients st) \<and> rs c = OPEN then [m] else [])"
  unfolding broadcast_def by (rule received_sends)

lemma broadcast_sends:
  "ClientSend c m' \<in> set (broadcast st rs m) \<longleftrightarrow>
     c \<in> set (clients st) \<and> rs c = OPEN \<and> m' = m"
  by (auto simp: broadcast_def)

subsection \<open>The handler of downstream messages\<close>

lemma clientWs_on_message_request:
  assumes "get_prop msg ''topic'' = Inr (JString ''request_history'')"
    and "get_prop msg ''symbol'' = Inr symbol" and "get_prop msg ''interval'' = Inr interval"
  shows "clientWs_on_message st clientWs (Parsed msg) answer =
    Inr (st, request_history clientWs symbol interval answer)"
  using assms by (simp add: clientWs_on_message_def)

text \<open>A message with any other topic, or none, is ignored, as long as it is not \<^verbatim>\<open>null\<close>.\<close>

lemma clientWs_on_message_other:
  assumes "get_prop msg ''topic'' = Inr topic" and "topic \<noteq> JString ''request_history''"
  shows "clientWs_on_message st clientWs (Parsed msg) answer = Inr (st, [])"
  using assms by (simp add: clientWs_on_message_def)

text \<open>
  A response whose body is \<^verbatim>\<open>null\<close> has no \<^verbatim>\<open>data\<close> to read: the read throws and the
  \<^verbatim>\<open>catch\<close> block answers.
\<close>

lemma history_reply_null_body:
  "history_reply (Response JNull) = ErrorMessage ''Failed to fetch history.''"
  by (simp add: history_reply_def fetch_history_def)

lemma get_prop_not_null: "v \<noteq> JNull \<Longrightarrow> v \<noteq> JUndefined \<Longrightarrow> \<exists>x. get_prop v k = Inr x"
  by (cases v) auto

subsection \<open>The upstream connection\<close>

lemma fetch_endpoint_Rejected: "fetch_endpoint (Rejected m) = Inl (RequestFailed m)"
  by (simp add: fetch_endpoint_def)

text \<open>
  A bootstrap that throws inside the \<^verbatim>\<open>try\<close> block sets one timer of 10000
  milliseconds and changes nothing else; a bootstrap whose URL the constructor accepts
  sets none and keeps the socket.
\<close>

lemma connectToKuCoin_retry:
  "fetch_endpoint boot = Inl e \<Longrightarrow>
   connectToKuCoin valid_url st boot = (st, [HttpPost, SetTimeout 10000], None)"
  by (simp add: connectToKuCoin_def)

lemma connectToKuCoin_success:
  "fetch_endpoint boot = Inr url \<Longrightarrow> valid_url (fst url) (snd url) \<Longrightarrow>
   connectToKuCoin valid_url st boot =
     (st\<lparr>kucoinWsUrl := Some url, kucoinWs := Some url\<rparr>,
      [HttpPost, NewWebSocket (fst url) (snd url)], None)"
  by (simp add: connectToKuCoin_def)

text \<open>
  Every \<^verbatim>\<open>close\<close> of the upstream socket, with or without a code, forgets the socket
  and sets one timer of 5000 milliseconds.
\<close>

lemma kucoinWs_on_close_timer:
  "kucoinWs_on_close st code reason = (st\<lparr>kucoinWs := None\<rparr>, [SetTimeout 5000]) \<and>
   timers (snd (kucoinWs_on_close st code reason)) = [5000]"
  by (simp add: kucoinWs_on_close_def)

section \<open>Properties\<close>

text \<open>
  C10. The live transformation and the historical transformation are the same function
  of a raw record: for every raw array \<open>r\<close>, the candle built from a live payload whose
  \<^verbatim>\<open>candles\<close> is \<open>r\<close> and the candle built from the historical record \<open>r\<close> are both
  the candle the specification describes (time \<^verbatim>\<open>parseInt(r[0]) / 1000\<close>, then
  \<^verbatim>\<open>parseFloat\<close> of the four prices), and fail alike when a field does not convert.
\<close>

theorem live_and_history_normalize_alike:
  assumes "get_prop kucoinCandle ''candles'' = Inr (JArray r)"
  shows "realTimeCandle kucoinCandle = spec_normalize r \<and>
         formattedCandle (JArray r) = spec_normalize r"
  using assms
  by (simp add: realTimeCandle_def formattedCandle_def candles_at_def spec_normalize_def
      raw_at_def)

theorem live_and_history_normalize_alike_witness:
  "realTimeCandle (JObject [(''symbol'', JString ''SOLUSDTM''),
       (''candles'', JArray [JString ''60000'', JString ''8.5'', JString ''9'', JString ''9.25'',
          JString ''7''])])
     = Inr \<lparr>time = Num 60, open = Num (17 / 2), close = Num 9, high = Num (37 / 4), low = Num 7\<rparr>
   \<and> formattedCandle (JArray [JString ''60000'', JString ''8.5'', JString ''9'', JString ''9.25'',
          JString ''7''])
     = Inr \<lparr>time = Num 60, open = Num (17 / 2), close = Num 9, high = Num (37 / 4), low = Num 7\<rparr>"
proof -
  let ?r = "[JString ''60000'', JString ''8.5'', JString ''9'', JString ''9.25'', JString ''7'']"
  let ?k = "JObject [(''symbol'', JString ''SOLUSDTM''), (''candles'', JArray ?r)]"
  have h: "get_prop ?k ''candles'' = Inr (JArray ?r)" by simp
  have v: "spec_normalize ?r
      = Inr \<lparr>time = Num 60, open = Num (17 / 2), close = Num 9, high = Num (37 / 4), low = Num 7\<rparr>"
    by (simp add: spec_normalize_def raw_at_def parseInt_string_def parseFloat_string_def
        is_space_def dec_digit_def digits_value_def read_exponent_def scale10_def
        round64_numeral round64_halves round64_quarters)
  show ?thesis
    using live_and_history_normalize_alike [OF h] v by simp
qed

text \<open>
  C2, as the code has it. Both transformations give the same time, the double nearest
  to \<^verbatim>\<open>parseInt(raw) / 1000\<close>, with no truncation to whole seconds. \<^verbatim>\<open>parseInt\<close>
  reads \<open>NaN\<close>, an infinity or an integer \<open>n\<close> from the raw timestamp. The time is
  \<open>NaN\<close> exactly when \<^verbatim>\<open>parseInt\<close> reads \<open>NaN\<close>. When it reads \<open>n\<close>, the time is the
  double nearest to \<open>n / 1000\<close>, and for \<open>n\<close> up to \<open>2\<^sup>5\<^sup>3\<close> in magnitude the time is
  integer-valued if and only if \<open>n\<close> is a multiple of 1000.
\<close>

theorem time_is_ms_over_1000:
  assumes "get_prop kucoinCandle ''candles'' = Inr d" and "formattedCandle d = Inr c"
  shows "realTimeCandle kucoinCandle = Inr c \<and>
     (\<exists>t. bindE (index d 0) parseInt = Inr t \<and>
          (t = NaN \<or> t = PosInf \<or> t = NegInf \<or> (\<exists>n. t = Num (of_int n))) \<and>
          time c = div1000 t \<and>
          (time c = NaN \<longleftrightarrow> t = NaN) \<and>
          (\<forall>n. t = Num (of_int n) \<longrightarrow>
             time c = round64 (of_int n / 1000) \<and>
             (\<bar>n\<bar> \<le> 2 ^ 53 \<longrightarrow> (is_integer (time c) \<longleftrightarrow> 1000 dvd n))))"
proof -
  from assms have live: "realTimeCandle kucoinCandle = Inr c"
    by (simp add: realTimeCandle_formattedCandle)
  from assms(2) obtain v t where v: "index d 0 = Inr v" and t: "parseInt v = Inr t"
    by (auto simp: formattedCandle_def bindE_eq_Inr)
  then have read: "bindE (index d 0) parseInt = Inr t" by simp
  have tc: "time c = div1000 t"
    using assms(2) read by (rule formattedCandle_time)
  have shape: "t = NaN \<or> t = PosInf \<or> t = NegInf \<or> (\<exists>n. t = Num (of_int n))"
    using t by (rule parseInt_integral)
  have nan: "time c = NaN \<longleftrightarrow> t = NaN"
    by (simp only: tc div1000_NaN)
  have num: "\<forall>n. t = Num (of_int n) \<longrightarrow>
      time c = round64 (of_int n / 1000) \<and>
      (\<bar>n\<bar> \<le> 2 ^ 53 \<longrightarrow> (is_integer (time c) \<longleftrightarrow> 1000 dvd n))"
  proof (intro allI impI conjI)
    fix n
    assume n: "t = Num (of_int n)"
    show "time c = round64 (of_int n / 1000)" by (simp add: tc n)
    assume "\<bar>n\<bar> \<le> 2 ^ 53"
    then show "is_integer (time c) \<longleftrightarrow> 1000 dvd n"
      unfolding tc n by (rule is_integer_div1000)
  qed
  from read shape tc nan num live show ?thesis by blast
qed

theorem time_is_ms_over_1000_witness:
  "realTimeCandle (JObject [(''candles'',
       JArray [JNumber (Num 61500), JNumber (Num 8), JNumber (Num 9), JNumber (Num 9),
         JNumber (Num 7)])])
     = Inr \<lparr>time = Num (123 / 2), open = Num 8, close = Num 9, high = Num 9, low = Num 7\<rparr>"
proof -
  let ?d = "JArray [JNumber (Num 61500), JNumber (Num 8), JNumber (Num 9), JNumber (Num 9),
    JNumber (Num 7)]"
  have h1: "get_prop (JObject [(''candles'', ?d)]) ''candles'' = Inr ?d" by simp
  have h2: "formattedCandle ?d
      = Inr \<lparr>time = Num (123 / 2), open = Num 8, close = Num 9, high = Num 9, low = Num 7\<rparr>"
    by (simp add: formattedCandle_def parseFloat_number_def parseInt_number_numeral
        round64_halves)
  show ?thesis
    using time_is_ms_over_1000 [OF h1 h2] by simp
qed

text \<open>
  The claim as the specification words it asks for an integer-valued time for every raw
  timestamp. A raw timestamp of 1500 milliseconds, as a number in a historical record
  and as a string in a live payload, gives the time 3/2, which is a double.
\<close>

theorem time_not_integer_counterexample:
  "formattedCandle (JArray [JNumber (Num 1500), JNumber (Num 8), JNumber (Num 9),
       JNumber (Num 9), JNumber (Num 7)])
     = Inr \<lparr>time = Num (3 / 2), open = Num 8, close = Num 9, high = Num 9, low = Num 7\<rparr>
   \<and> realTimeCandle (JObject [(''candles'', JArray [JString ''1500'', JString ''8'',
       JString ''9'', JString ''9'', JString ''7''])])
     = Inr \<lparr>time = Num (3 / 2), open = Num 8, close = Num 9, high = Num 9, low = Num 7\<rparr>
   \<and> \<not> is_integer (Num (3 / 2))"
  by (simp add: formattedCandle_def realTimeCandle_def candles_at_def parseFloat_number_def
      parseInt_string_def parseFloat_string_def is_space_def dec_digit_def digits_value_def
      read_exponent_def scale10_def parseInt_number_numeral round64_numeral round64_halves)

text \<open>
  C1, as the code has it. The handler reverses the formatted records without looking
  at their order: the batch it sends is the raw response in reverse, each time being
  the double nearest to \<^verbatim>\<open>parseInt(d[0]) / 1000\<close>. So the batch is strictly ascending
  by time exactly when the formatted records were strictly descending by time. A batch
  that is strictly ascending comes from a raw response that was strictly descending by
  timestamp (newest first); a raw response that was strictly descending by timestamp
  gives a batch that never steps down, and one that is strictly ascending when the
  timestamps are integers below \<open>2\<^sup>5\<^sup>2\<close> in magnitude (above, two timestamps can have
  the same nearest double, lemma \<open>tie_example\<close>).
\<close>

theorem history_batch_is_reversed_raw:
  assumes "get_prop body ''data'' = Inr (JArray ds)" and "ds \<noteq> []"
    and "formattedCandles ds = Inr cs"
  shows "history_reply (Response body) = HistoryData (rev cs) \<and>
         map time (rev cs) = rev (map (\<lambda>d. div1000 (raw_ms d)) ds) \<and>
         (strictly_ascending (map time (rev cs)) \<longleftrightarrow> strictly_descending (map time cs)) \<and>
         (strictly_ascending (map time (rev cs)) \<longrightarrow> strictly_descending (map raw_ms ds)) \<and>
         (strictly_descending (map raw_ms ds) \<longrightarrow> ascending (map time (rev cs))) \<and>
         ((\<forall>d \<in> set ds. \<exists>n. raw_ms d = Num (of_int n) \<and> \<bar>n\<bar> < 2 ^ 52) \<longrightarrow>
            (strictly_ascending (map time (rev cs)) \<longleftrightarrow> strictly_descending (map raw_ms ds)))"
proof -
  have reply: "history_reply (Response body) = HistoryData (rev cs)"
    using assms by (simp add: history_reply_def fetch_history_def finalCandles_def)
  have times: "map time cs = map (\<lambda>d. div1000 (raw_ms d)) ds"
    using assms(3) by (rule formattedCandles_times)
  have reversed: "map time (rev cs) = rev (map time cs)"
    by (simp only: rev_map)
  have batch: "map time (rev cs) = rev (map (\<lambda>d. div1000 (raw_ms d)) ds)"
    by (simp only: reversed times)
  have flip: "strictly_ascending (map time (rev cs)) \<longleftrightarrow> strictly_descending (map time cs)"
    by (simp only: reversed ascending_rev)
  have bwd: "strictly_ascending (map time (rev cs)) \<longrightarrow> strictly_descending (map raw_ms ds)"
    unfolding flip times by (rule impI) (rule descending_div1000_reflects)
  have fwd: "strictly_descending (map raw_ms ds) \<longrightarrow> ascending (map time (rev cs))"
    unfolding batch by (rule impI) (rule descending_div1000_ascending)
  have exact: "(\<forall>d \<in> set ds. \<exists>n. raw_ms d = Num (of_int n) \<and> \<bar>n\<bar> < 2 ^ 52) \<longrightarrow>
      (strictly_ascending (map time (rev cs)) \<longleftrightarrow> strictly_descending (map raw_ms ds))"
    unfolding flip times
    using descending_div1000_strict [of ds raw_ms] descending_div1000_reflects [of raw_ms ds]
    by blast
  from reply batch flip bwd fwd exact show ?thesis by blast
qed

theorem history_batch_is_reversed_raw_witness:
  "history_reply (Response (JObject [(''code'', JString ''200000''), (''data'', JArray [
       JArray [JNumber (Num 120000), JNumber (Num 10), JNumber (Num 12), JNumber (Num 13),
         JNumber (Num 9)],
       JArray [JNumber (Num 60000), JNumber (Num 8), JNumber (Num 9), JNumber (Num 9),
         JNumber (Num 7)]])]))
     = HistoryData [
         \<lparr>time = Num 60, open = Num 8, close = Num 9, high = Num 9, low = Num 7\<rparr>,
         \<lparr>time = Num 120, open = Num 10, close = Num 12, high = Num 13, low = Num 9\<rparr>]
   \<and> strictly_ascending [Num 60, Num 120]"
proof -
  let ?d1 = "JArray [JNumber (Num 120000), JNumber (Num 10), JNumber (Num 12), JNumber (Num 13),
    JNumber (Num 9)]"
  let ?d2 = "JArray [JNumber (Num 60000), JNumber (Num 8), JNumber (Num 9), JNumber (Num 9),
    JNumber (Num 7)]"
  let ?body = "JObject [(''code'', JString ''200000''), (''data'', JArray [?d1, ?d2])]"
  let ?c1 = "\<lparr>time = Num 120, open = Num 10, close = Num 12, high = Num 13, low = Num 9\<rparr>"
  let ?c2 = "\<lparr>time = Num 60, open = Num 8, close = Num 9, high = Num 9, low = Num 7\<rparr>"
  have h1: "get_prop ?body ''data'' = Inr (JArray [?d1, ?d2])" by simp
  have h2: "[?d1, ?d2] \<noteq> []" by simp
  have h3: "formattedCandles [?d1, ?d2] = Inr [?c1, ?c2]"
    by (simp add: formattedCandle_def parseFloat_number_def parseInt_number_numeral
        round64_numeral)
  have r: "raw_ms ?d1 = Num 120000" "raw_ms ?d2 = Num 60000"
    by (simp_all add: raw_ms_def parseInt_number_numeral)
  have desc: "strictly_descending (map raw_ms [?d1, ?d2])"
    by (simp add: r strictly_descending_def)
  have b1: "\<exists>n. raw_ms ?d1 = Num (of_int n) \<and> \<bar>n\<bar> < 2 ^ 52"
    by (rule exI [of _ 120000]) (simp add: r)
  have b2: "\<exists>n. raw_ms ?d2 = Num (of_int n) \<and> \<bar>n\<bar> < 2 ^ 52"
    by (rule exI [of _ 60000]) (simp add: r)
  have small: "\<forall>d \<in> set [?d1, ?d2]. \<exists>n. raw_ms d = Num (of_int n) \<and> \<bar>n\<bar> < 2 ^ 52"
    using b1 b2 by simp
  note batch = history_batch_is_reversed_raw [OF h1 h2 h3]
  from batch have "history_reply (Response ?body) = HistoryData (rev [?c1, ?c2])"
    by (rule conjunct1)
  then have reply: "history_reply (Response ?body) = HistoryData [?c2, ?c1]"
    by simp
  from batch desc small have "strictly_ascending (map time (rev [?c1, ?c2]))"
    by blast
  then have "strictly_ascending [Num 60, Num 120]"
    by simp
  with reply show ?thesis by (rule conjI)
qed

text \<open>
  The claim as the specification words it promises an ascending batch whatever the order
  of the raw response. A raw response that is already oldest first comes out newest
  first.
\<close>

theorem history_batch_ascending_counterexample:
  "history_reply (Response (JObject [(''code'', JString ''200000''), (''data'', JArray [
       JArray [JNumber (Num 1000), JNumber (Num 8), JNumber (Num 9), JNumber (Num 9),
         JNumber (Num 7)],
       JArray [JNumber (Num 2000), JNumber (Num 10), JNumber (Num 12), JNumber (Num 13),
         JNumber (Num 9)]])]))
     = HistoryData [
         \<lparr>time = Num 2, open = Num 10, close = Num 12, high = Num 13, low = Num 9\<rparr>,
         \<lparr>time = Num 1, open = Num 8, close = Num 9, high = Num 9, low = Num 7\<rparr>]
   \<and> \<not> strictly_ascending [Num 2, Num 1]"
  by (simp add: history_reply_def fetch_history_def formattedCandle_def finalCandles_def
      parseFloat_number_def strictly_ascending_def parseInt_number_numeral round64_numeral
      round64_1)

text \<open>
  C4. The history request for \<^verbatim>\<open>SOLUSDTM\<close> at \<^verbatim>\<open>1min\<close> whose GET returns the raw
  records \<^verbatim>\<open>[[2000,10,12,13,9],[1000,8,9,9,7]]\<close> is answered, on the requesting
  connection, with the two candles oldest first: index 0 divided by 1000 is the time,
  and indices 1 to 4 are open, close, high and low.
\<close>

theorem history_example:
  "clientWs_on_message st clientWs
     (Parsed (JObject [(''topic'', JString ''request_history''),
        (''symbol'', JString ''SOLUSDTM''), (''interval'', JString ''1min'')]))
     (Response (JObject [(''code'', JString ''200000''), (''data'', JArray [
        JArray [JNumber (Num 2000), JNumber (Num 10), JNumber (Num 12), JNumber (Num 13),
          JNumber (Num 9)],
        JArray [JNumber (Num 1000), JNumber (Num 8), JNumber (Num 9), JNumber (Num 9),
          JNumber (Num 7)]])]))
   = Inr (st, [HttpGet (JString ''SOLUSDTM'') (JString ''1min''),
        ClientSend clientWs (HistoryData [
          \<lparr>time = Num 1, open = Num 8, close = Num 9, high = Num 9, low = Num 7\<rparr>,
          \<lparr>time = Num 2, open = Num 10, close = Num 12, high = Num 13, low = Num 9\<rparr>])])"
  by (simp add: clientWs_on_message_def request_history_def history_reply_def
      fetch_history_def formattedCandle_def finalCandles_def parseFloat_number_def
      parseInt_number_numeral round64_numeral round64_1)

theorem history_example_witness:
  "clientWs_on_message (relay0\<lparr>clients := [7, 8]\<rparr>) 7
     (Parsed (JObject [(''topic'', JString ''request_history''),
        (''symbol'', JString ''SOLUSDTM''), (''interval'', JString ''1min'')]))
     (Response (JObject [(''code'', JString ''200000''), (''data'', JArray [
        JArray [JNumber (Num 2000), JNumber (Num 10), JNumber (Num 12), JNumber (Num 13),
          JNumber (Num 9)],
        JArray [JNumber (Num 1000), JNumber (Num 8), JNumber (Num 9), JNumber (Num 9),
          JNumber (Num 7)]])]))
   = Inr (relay0\<lparr>clients := [7, 8]\<rparr>, [HttpGet (JString ''SOLUSDTM'') (JString ''1min''),
        ClientSend 7 (HistoryData [
          \<lparr>time = Num 1, open = Num 8, close = Num 9, high = Num 9, low = Num 7\<rparr>,
          \<lparr>time = Num 2, open = Num 10, close = Num 12, high = Num 13, low = Num 9\<rparr>])])"
  by (rule history_example)

text \<open>
  C5. A history request whose GET is made and returns an envelope whose \<^verbatim>\<open>data\<close> is an
  empty array or is not an array (absent included) is answered, on the requesting
  connection, with \<^verbatim>\<open>{topic: 'history_data', data: []}\<close> and nothing else: no
  message of topic \<^verbatim>\<open>error\<close> is sent.
\<close>

theorem empty_history_reply:
  assumes "get_prop msg ''topic'' = Inr (JString ''request_history'')"
    and "get_prop msg ''symbol'' = Inr symbol" and "get_prop msg ''interval'' = Inr interval"
    and "stringifiable symbol" and "stringifiable interval"
    and "get_prop body ''data'' = Inr kucoinData"
    and "\<not> isArray kucoinData \<or> kucoinData = JArray []"
  shows "clientWs_on_message st clientWs (Parsed msg) (Response body) =
           Inr (st, [HttpGet symbol interval, ClientSend clientWs (HistoryData [])])"
proof -
  have "fetch_history (Response body) = Inr (HistoryData [])"
    using assms(6,7) by (cases kucoinData) (auto simp: fetch_history_def)
  then have "history_reply (Response body) = HistoryData []"
    by (simp add: history_reply_def)
  with clientWs_on_message_request [OF assms(1-3)] assms(4,5) show ?thesis
    by (simp add: request_history_def)
qed

theorem empty_history_reply_witness:
  "clientWs_on_message (relay0\<lparr>clients := [7, 8]\<rparr>) 7
     (Parsed (JObject [(''topic'', JString ''request_history''),
        (''symbol'', JString ''SOLUSDTM''), (''interval'', JString ''1min'')]))
     (Response (JObject [(''code'', JString ''200000''), (''data'', JArray [])]))
   = Inr (relay0\<lparr>clients := [7, 8]\<rparr>,
       [HttpGet (JString ''SOLUSDTM'') (JString ''1min''), ClientSend 7 (HistoryData [])])
   \<and> clientWs_on_message (relay0\<lparr>clients := [7, 8]\<rparr>) 7
     (Parsed (JObject [(''topic'', JString ''request_history''),
        (''symbol'', JString ''SOLUSDTM''), (''interval'', JString ''1min'')]))
     (Response (JObject [(''code'', JString ''400100''), (''msg'', JString ''Bad request'')]))
   = Inr (relay0\<lparr>clients := [7, 8]\<rparr>,
       [HttpGet (JString ''SOLUSDTM'') (JString ''1min''), ClientSend 7 (HistoryData [])])"
proof -
  let ?msg = "JObject [(''topic'', JString ''request_history''),
    (''symbol'', JString ''SOLUSDTM''), (''interval'', JString ''1min'')]"
  let ?empty = "JObject [(''code'', JString ''200000''), (''data'', JArray [])]"
  let ?absent = "JObject [(''code'', JString ''400100''), (''msg'', JString ''Bad request'')]"
  have t: "get_prop ?msg ''topic'' = Inr (JString ''request_history'')"
    and s: "get_prop ?msg ''symbol'' = Inr (JString ''SOLUSDTM'')"
    and i: "get_prop ?msg ''interval'' = Inr (JString ''1min'')"
    by simp_all
  have ok: "stringifiable (JString ''SOLUSDTM'')" "stringifiable (JString ''1min'')"
    by simp_all
  have e: "get_prop ?empty ''data'' = Inr (JArray [])"
    and a: "get_prop ?absent ''data'' = Inr JUndefined"
    by simp_all
  have e': "\<not> isArray (JArray []) \<or> JArray [] = JArray []"
    and a': "\<not> isArray JUndefined \<or> JUndefined = JArray []"
    by simp_all
  show ?thesis
    using empty_history_reply [OF t s i ok e e'] empty_history_reply [OF t s i ok a a']
    by (rule conjI)
qed

text \<open>
  C7, as the code has it. A history request whose GET is made and fails is answered, on
  the requesting connection only, with \<^verbatim>\<open>{topic: 'error', message: 'Failed to fetch
  history.'}\<close>: one fixed message, whatever the cause (the cause goes to the console
  only). Nothing is sent to any other connection, the module's variables, the registry
  among them, are as before, and the handler throws nothing.
\<close>

theorem history_error_reply:
  assumes "get_prop msg ''topic'' = Inr (JString ''request_history'')"
    and "get_prop msg ''symbol'' = Inr symbol" and "get_prop msg ''interval'' = Inr interval"
    and "stringifiable symbol" and "stringifiable interval"
  shows "clientWs_on_message st clientWs (Parsed msg) (Rejected cause) =
           Inr (st, [HttpGet symbol interval,
                     ClientSend clientWs (ErrorMessage ''Failed to fetch history.'')])"
  using clientWs_on_message_request [OF assms(1-3)] assms(4,5)
  by (simp add: request_history_def history_reply_def fetch_history_def)

theorem history_error_reply_witness:
  "clientWs_on_message (relay0\<lparr>clients := [7, 8]\<rparr>) 7
     (Parsed (JObject [(''topic'', JString ''request_history''),
        (''symbol'', JString ''SOLUSDTM''), (''interval'', JString ''1min'')]))
     (Rejected ''Request failed with status code 429'')
   = Inr (relay0\<lparr>clients := [7, 8]\<rparr>,
       [HttpGet (JString ''SOLUSDTM'') (JString ''1min''),
        ClientSend 7 (ErrorMessage ''Failed to fetch history.'')])"
proof -
  let ?msg = "JObject [(''topic'', JString ''request_history''),
    (''symbol'', JString ''SOLUSDTM''), (''interval'', JString ''1min'')]"
  have t: "get_prop ?msg ''topic'' = Inr (JString ''request_history'')"
    and s: "get_prop ?msg ''symbol'' = Inr (JString ''SOLUSDTM'')"
    and i: "get_prop ?msg ''interval'' = Inr (JString ''1min'')"
    by simp_all
  have ok: "stringifiable (JString ''SOLUSDTM'')" "stringifiable (JString ''1min'')"
    by simp_all
  show ?thesis
    by (rule history_error_reply [OF t s i ok])
qed

text \<open>
  The claim as the specification words it has the message carry the underlying cause.
  A GET that times out is answered with the fixed message, which does not contain the
  cause.
\<close>

theorem history_error_cause_counterexample:
  "clientWs_on_message (relay0\<lparr>clients := [7, 8]\<rparr>) 7
     (Parsed (JObject [(''topic'', JString ''request_history''),
        (''symbol'', JString ''SOLUSDTM''), (''interval'', JString ''1min'')]))
     (Rejected ''timeout of 5000ms exceeded'')
   = Inr (relay0\<lparr>clients := [7, 8]\<rparr>,
       [HttpGet (JString ''SOLUSDTM'') (JString ''1min''),
        ClientSend 7 (ErrorMessage ''Failed to fetch history.'')])
   \<and> \<not> str_includes ''Failed to fetch history.'' ''timeout of 5000ms exceeded''"
  by (simp add: clientWs_on_message_def request_history_def history_reply_def
      fetch_history_def)

text \<open>
  C9. The claim holds for every message that is not \<^verbatim>\<open>null\<close> (lemma
  \<open>clientWs_on_message_other\<close>). The frame \<^verbatim>\<open>null\<close> parses as JSON and is not a
  history request, and on it the handler throws a \<^verbatim>\<open>TypeError\<close> when it reads
  \<^verbatim>\<open>msg.topic\<close>.
\<close>

theorem null_message_throws:
  "clientWs_on_message st clientWs (Parsed JNull) answer = Inl TypeError"
  by (simp add: clientWs_on_message_def)

text \<open>
  C6. With three subscribers \<open>A\<close>, \<open>B\<close> and \<open>C\<close> in the registry, a published
  message is received once by each of them when all three are open; when \<open>B\<close> is not
  open, \<open>A\<close> and \<open>C\<close> still receive it once and \<open>B\<close> receives nothing. The fan-out
  has no path that throws: it is a total function to the list of its sends.
\<close>

theorem broadcast_three_subscribers:
  assumes "distinct (clients st)" and "set (clients st) = {A, B, C}"
    and "A \<noteq> B" and "A \<noteq> C" and "B \<noteq> C"
  shows "(rs A = OPEN \<and> rs B = OPEN \<and> rs C = OPEN \<longrightarrow>
            received A (broadcast st rs m) = [m] \<and> received B (broadcast st rs m) = [m] \<and>
            received C (broadcast st rs m) = [m]) \<and>
         (rs A = OPEN \<and> rs B \<noteq> OPEN \<and> rs C = OPEN \<longrightarrow>
            received A (broadcast st rs m) = [m] \<and> received B (broadcast st rs m) = [] \<and>
            received C (broadcast st rs m) = [m])"
  using assms by (simp add: received_broadcast)

theorem broadcast_three_subscribers_witness:
  "received 7 (broadcast (relay0\<lparr>clients := [7, 8, 9]\<rparr>) (closed_only 8)
       (Push (JString ''/contractMarket/limitCandle:SOLUSDTM_1min'')
          \<lparr>time = Num 60, open = Num 8, close = Num 9, high = Num 9, low = Num 7\<rparr>))
     = [Push (JString ''/contractMarket/limitCandle:SOLUSDTM_1min'')
          \<lparr>time = Num 60, open = Num 8, close = Num 9, high = Num 9, low = Num 7\<rparr>]
   \<and> received 8 (broadcast (relay0\<lparr>clients := [7, 8, 9]\<rparr>) (closed_only 8)
       (Push (JString ''/contractMarket/limitCandle:SOLUSDTM_1min'')
          \<lparr>time = Num 60, open = Num 8, close = Num 9, high = Num 9, low = Num 7\<rparr>))
     = []
   \<and> received 9 (broadcast (relay0\<lparr>clients := [7, 8, 9]\<rparr>) (closed_only 8)
       (Push (JString ''/contractMarket/limitCandle:SOLUSDTM_1min'')
          \<lparr>time = Num 60, open = Num 8, close = Num 9, high = Num 9, low = Num 7\<rparr>))
     = [Push (JString ''/contractMarket/limitCandle:SOLUSDTM_1min'')
          \<lparr>time = Num 60, open = Num 8, close = Num 9, high = Num 9, low = Num 7\<rparr>]
   \<and> received 8 (broadcast (relay0\<lparr>clients := [7, 8, 9]\<rparr>) all_open
       (Push (JString ''/contractMarket/limitCandle:SOLUSDTM_1min'')
          \<lparr>time = Num 60, open = Num 8, close = Num 9, high = Num 9, low = Num 7\<rparr>))
     = [Push (JString ''/contractMarket/limitCandle:SOLUSDTM_1min'')
          \<lparr>time = Num 60, open = Num 8, close = Num 9, high = Num 9, low = Num 7\<rparr>]"
proof -
  let ?st = "relay0\<lparr>clients := [7, 8, 9]\<rparr>"
  have d: "distinct (clients ?st)" by simp
  have s: "set (clients ?st) = {7, 8, 9}" by simp
  have n: "(7 :: conn) \<noteq> 8" "(7 :: conn) \<noteq> 9" "(8 :: conn) \<noteq> 9" by simp_all
  have c: "closed_only 8 7 = OPEN \<and> closed_only 8 8 \<noteq> OPEN \<and> closed_only 8 9 = OPEN"
    by (simp add: closed_only_def)
  have a: "all_open 7 = OPEN \<and> all_open 8 = OPEN \<and> all_open 9 = OPEN"
    by (simp add: all_open_def)
  show ?thesis
    using broadcast_three_subscribers [OF d s n, of "closed_only 8"]
      broadcast_three_subscribers [OF d s n, of all_open] c a
    by blast
qed

text \<open>
  C8. The claim holds for every bootstrap that throws inside the \<^verbatim>\<open>try\<close> block and for
  every \<^verbatim>\<open>close\<close> of the upstream socket (lemmas \<open>connectToKuCoin_retry\<close> and
  \<open>kucoinWs_on_close_timer\<close>). A bootstrap response with a first instance server that
  has no usable endpoint throws nothing inside the \<^verbatim>\<open>try\<close> block: the URL is printed
  from what was read, the constructor of the socket refuses it outside the \<^verbatim>\<open>try\<close>
  block, and \<^verbatim>\<open>connectToKuCoin\<close> throws a \<^verbatim>\<open>SyntaxError\<close> with no timer set and no
  socket made.
\<close>

theorem refused_endpoint_is_fatal:
  assumes "fetch_endpoint boot = Inr url" and "\<not> valid_url (fst url) (snd url)"
  shows "connectToKuCoin valid_url st boot =
           (st\<lparr>kucoinWsUrl := Some url\<rparr>, [HttpPost], Some SyntaxError) \<and>
         timers (fst (snd (connectToKuCoin valid_url st boot))) = []"
  using assms by (simp add: connectToKuCoin_def)

theorem refused_endpoint_is_fatal_witness:
  "connectToKuCoin ws_scheme_only relay0
     (Response (JObject [(''code'', JString ''200000''),
        (''data'', JObject [(''instanceServers'', JArray [JObject []])])]))
   = (relay0\<lparr>kucoinWsUrl := Some (JUndefined, JUndefined)\<rparr>, [HttpPost], Some SyntaxError)
   \<and> timers [HttpPost] = []"
proof -
  let ?boot = "Response (JObject [(''code'', JString ''200000''),
    (''data'', JObject [(''instanceServers'', JArray [JObject []])])])"
  have h1: "fetch_endpoint ?boot = Inr (JUndefined, JUndefined)"
    by (simp add: fetch_endpoint_def)
  have h2: "\<not> ws_scheme_only (fst (JUndefined, JUndefined)) (snd (JUndefined, JUndefined))"
    by (simp add: ws_scheme_only_def)
  show ?thesis
    using refused_endpoint_is_fatal [where valid_url = ws_scheme_only and st = relay0, OF h1 h2]
    by simp
qed

text \<open>
  C3, as the code has it. The handler of upstream messages checks no field of the
  payload. A candle update whose \<^verbatim>\<open>candles\<close> array has no element at index 2, and
  whose elements convert to strings (as the strings, numbers, booleans and
  \<^verbatim>\<open>null\<close> of JSON do), is not dropped: the handler throws nothing and sends to every
  open subscriber a push with the topic of the message, in which close, high and low
  are \<open>NaN\<close> (\<^verbatim>\<open>JSON.stringify\<close> writes them as \<^verbatim>\<open>null\<close>).
\<close>

theorem missing_close_is_broadcast:
  assumes "is_candle_update msg = Inr True"
    and "get_prop msg ''data'' = Inr kucoinCandle"
    and "get_prop kucoinCandle ''candles'' = Inr (JArray cs)"
    and "length cs \<le> 2"
    and "\<forall>x \<in> set cs. stringifiable x"
    and "get_prop msg ''topic'' = Inr topic"
  shows "\<exists>t op. kucoinWs_on_message st rs (Parsed msg) =
           Inr (broadcast st rs
             (Push topic \<lparr>time = t, open = op, close = NaN, high = NaN, low = NaN\<rparr>)) \<and>
         (\<forall>client m. ClientSend client m \<in> set (broadcast st rs
              (Push topic \<lparr>time = t, open = op, close = NaN, high = NaN, low = NaN\<rparr>)) \<longleftrightarrow>
            client \<in> set (clients st) \<and> rs client = OPEN \<and>
            m = Push topic \<lparr>time = t, open = op, close = NaN, high = NaN, low = NaN\<rparr>)"
proof -
  from index_stringifiable [OF assms(5), of 0] obtain v0
    where v0: "index (JArray cs) 0 = Inr v0" "stringifiable v0" by blast
  from index_stringifiable [OF assms(5), of 1] obtain v1
    where v1: "index (JArray cs) 1 = Inr v1" "stringifiable v1" by blast
  from parseInt_stringifiable [OF v0(2)] obtain t where t: "parseInt v0 = Inr t" ..
  from parseFloat_stringifiable [OF v1(2)] obtain p where p: "parseFloat v1 = Inr p" ..
  have rest: "index (JArray cs) 2 = Inr JUndefined" "index (JArray cs) 3 = Inr JUndefined"
    "index (JArray cs) 4 = Inr JUndefined"
    using assms(4) by simp_all
  have "formattedCandle (JArray cs)
      = Inr \<lparr>time = div1000 t, open = p, close = NaN, high = NaN, low = NaN\<rparr>"
    unfolding formattedCandle_def by (simp only: v0 v1 rest t p bindE_Inr parseFloat.simps)
  then have c: "realTimeCandle kucoinCandle
      = Inr \<lparr>time = div1000 t, open = p, close = NaN, high = NaN, low = NaN\<rparr>"
    using realTimeCandle_formattedCandle [OF assms(3)] by simp
  have "kucoinWs_on_message st rs (Parsed msg) =
      Inr (broadcast st rs
        (Push topic \<lparr>time = div1000 t, open = p, close = NaN, high = NaN, low = NaN\<rparr>))"
    using assms(1,2,6) c by (simp add: kucoinWs_on_message_def)
  then show ?thesis
    by (simp only: broadcast_sends) blast
qed

theorem missing_close_is_broadcast_witness:
  "\<exists>t op. kucoinWs_on_message (relay0\<lparr>clients := [7, 8]\<rparr>) (closed_only 8)
     (Parsed (JObject [(''type'', JString ''message''),
        (''topic'', JString ''/contractMarket/limitCandle:SOLUSDTM_1min''),
        (''subject'', JString ''candle.stick''),
        (''data'', JObject [(''symbol'', JString ''SOLUSDTM''),
           (''candles'', JArray [JString ''60000'', JString ''8'']),
           (''time'', JNumber (Num 60000))])]))
   = Inr (broadcast (relay0\<lparr>clients := [7, 8]\<rparr>) (closed_only 8)
       (Push (JString ''/contractMarket/limitCandle:SOLUSDTM_1min'')
          \<lparr>time = t, open = op, close = NaN, high = NaN, low = NaN\<rparr>))"
proof -
  let ?k = "JObject [(''symbol'', JString ''SOLUSDTM''),
    (''candles'', JArray [JString ''60000'', JString ''8'']), (''time'', JNumber (Num 60000))]"
  let ?msg = "JObject [(''type'', JString ''message''),
    (''topic'', JString ''/contractMarket/limitCandle:SOLUSDTM_1min''),
    (''subject'', JString ''candle.stick''), (''data'', ?k)]"
  have u: "is_candle_update ?msg = Inr True"
    by (simp add: is_candle_update_def)
  have d: "get_prop ?msg ''data'' = Inr ?k"
    and c: "get_prop ?k ''candles'' = Inr (JArray [JString ''60000'', JString ''8''])"
    and t: "get_prop ?msg ''topic'' = Inr (JString ''/contractMarket/limitCandle:SOLUSDTM_1min'')"
    by simp_all
  have l: "length [JString ''60000'', JString ''8''] \<le> 2" by simp
  have s: "\<forall>x \<in> set [JString ''60000'', JString ''8'']. stringifiable x" by simp
  from missing_close_is_broadcast [OF u d c l s t] show ?thesis by blast
qed

text \<open>
  The claim as the specification words it has the relay drop such a message without a
  push. With one open subscriber, the update whose \<^verbatim>\<open>candles\<close> is
  \<^verbatim>\<open>["60000", "8"]\<close> is pushed to it.
\<close>

theorem missing_close_dropped_counterexample:
  "kucoinWs_on_message (relay0\<lparr>clients := [7]\<rparr>) all_open
     (Parsed (JObject [(''type'', JString ''message''),
        (''topic'', JString ''/contractMarket/limitCandle:SOLUSDTM_1min''),
        (''subject'', JString ''candle.stick''),
        (''data'', JObject [(''symbol'', JString ''SOLUSDTM''),
           (''candles'', JArray [JString ''60000'', JString ''8'']),
           (''time'', JNumber (Num 60000))])]))
   = Inr [ClientSend 7 (Push (JString ''/contractMarket/limitCandle:SOLUSDTM_1min'')
       \<lparr>time = Num 60, open = Num 8, close = NaN, high = NaN, low = NaN\<rparr>)]"
  by (simp add: kucoinWs_on_message_def is_candle_update_def realTimeCandle_def candles_at_def
      broadcast_def relay0_def all_open_def parseInt_string_def parseFloat_string_def
      is_space_def dec_digit_def digits_value_def read_exponent_def scale10_def
      round64_numeral)

end
